theory Spec2Isabelle
  imports Main "HOL-Library.Product_Lexorder" "HOL-Library.Sublist"
begin

section \<open>ReguLog: events, event store, multiline scan, templates and path filter\<close>

text \<open>
  A shallow embedding of \<^verbatim>\<open>src/regulog.py\<close> (Python 2). Objects are records, Python
  dictionaries are association lists (their order stands for the dictionary's iteration
  order), exceptions are values of \<open>error\<close>, and a method that mutates \<open>self\<close> returns the
  object it leaves behind together with the exception it raised, if any: Python does not
  roll a mutation back when a later statement raises. Output written with \<^verbatim>\<open>print\<close> is
  not part of the model.
\<close>

subsection \<open>Python values, exceptions and dictionaries\<close>

datatype error =
    RuntimeError string
  | AssertionError string
  | KeyError string
  | ValueError
  | IndexError
  | TypeError
  | AttributeError

datatype pyval = PyNone | PyStr string

type_synonym 'v dict = "(string \<times> 'v) list"

definition dict_has :: "'v dict \<Rightarrow> string \<Rightarrow> bool" where
  "dict_has d k = (map_of d k \<noteq> None)"

text \<open>\<^verbatim>\<open>d[k] = v\<close>: an existing key keeps its place, a new key is added.\<close>

fun dict_set :: "'v dict \<Rightarrow> string \<Rightarrow> 'v \<Rightarrow> 'v dict" where
  "dict_set [] k v = [(k, v)]"
| "dict_set ((k', v') # d) k v =
     (if k' = k then (k, v) # d else (k', v') # dict_set d k v)"

text \<open>\<^verbatim>\<open>d[k]\<close> raises \<^verbatim>\<open>KeyError\<close> on a missing key.\<close>

definition dict_get :: "'v dict \<Rightarrow> string \<Rightarrow> error + 'v" where
  "dict_get d k = (case map_of d k of None \<Rightarrow> Inl (KeyError k) | Some v \<Rightarrow> Inr v)"

subsection \<open>Strings\<close>

definition digit_char :: "nat \<Rightarrow> char" where
  "digit_char n = char_of (48 + n mod 10)"

text \<open>\<^verbatim>\<open>str(n)\<close> for an integer: decimal digits, most significant first.\<close>

function str_nat :: "nat \<Rightarrow> string" where
  "str_nat n = (if n < 10 then [digit_char n] else str_nat (n div 10) @ [digit_char n])"
  by pat_completeness auto
termination
  by (relation "measure id") auto

declare str_nat.simps [simp del]

definition str_int :: "int \<Rightarrow> string" where
  "str_int i = (if i < 0 then CHR ''-'' # str_nat (nat (- i)) else str_nat (nat i))"

text \<open>\<^verbatim>\<open>"%0wd" % n\<close> for a non-negative \<open>n\<close>.\<close>

definition zpad :: "nat \<Rightarrow> int \<Rightarrow> string" where
  "zpad w i = (let s = str_int i in replicate (w - length s) CHR ''0'' @ s)"

text \<open>\<^verbatim>\<open>s.replace(a, b)\<close> for a one-character \<open>a\<close>.\<close>

definition replace_char :: "char \<Rightarrow> string \<Rightarrow> string \<Rightarrow> string" where
  "replace_char a b s = concat (map (\<lambda>c. if c = a then b else [c]) s)"

definition newline :: char where
  "newline = CHR 0x0A"

text \<open>\<^verbatim>\<open>s[i:j]\<close> for \<open>0 \<le> i\<close>, \<open>0 \<le> j\<close>.\<close>

definition slice :: "string \<Rightarrow> nat \<Rightarrow> nat \<Rightarrow> string" where
  "slice s i j = take (j - i) (drop i s)"

text \<open>\<^verbatim>\<open>os.path.basename\<close> of \<^verbatim>\<open>posixpath\<close>: what follows the last \<^verbatim>\<open>/\<close>.\<close>

definition basename :: "string \<Rightarrow> string" where
  "basename p = rev (takeWhile (\<lambda>c. c \<noteq> CHR ''/'') (rev p))"

definition is_space :: "char \<Rightarrow> bool" where
  "is_space c = (c \<in> set [CHR '' '', CHR 0x09, CHR 0x0A, CHR 0x0B, CHR 0x0C, CHR 0x0D])"

text \<open>\<^verbatim>\<open>s.strip()\<close>.\<close>

definition strip :: "string \<Rightarrow> string" where
  "strip s = rev (dropWhile is_space (rev (dropWhile is_space s)))"

text \<open>\<^verbatim>\<open>s.partition(c)\<close> for a one-character separator.\<close>

definition partition_char :: "char \<Rightarrow> string \<Rightarrow> string \<times> string \<times> string" where
  "partition_char c s =
     (case dropWhile (\<lambda>x. x \<noteq> c) s of
        [] \<Rightarrow> (s, [], [])
      | _ # rest \<Rightarrow> (takeWhile (\<lambda>x. x \<noteq> c) s, [c], rest))"

text \<open>\<^verbatim>\<open>s.replace(a, r)\<close> for the two-character string \<open>a = [x, y]\<close>.\<close>

fun replace2 :: "char \<Rightarrow> char \<Rightarrow> string \<Rightarrow> string \<Rightarrow> string" where
  "replace2 x y r (a # b # s) =
     (if a = x \<and> b = y then r @ replace2 x y r s else a # replace2 x y r (b # s))"
| "replace2 x y r s = s"

definition digit_val :: "char \<Rightarrow> nat option" where
  "digit_val c =
     (if (48::nat) \<le> of_char c \<and> of_char c \<le> (57::nat) then Some (of_char c - 48) else None)"

fun digits_val :: "nat \<Rightarrow> string \<Rightarrow> nat option" where
  "digits_val acc [] = Some acc"
| "digits_val acc (c # cs) =
     (case digit_val c of None \<Rightarrow> None | Some d \<Rightarrow> digits_val (10 * acc + d) cs)"

text \<open>
  \<^verbatim>\<open>int(s)\<close> for a string: surrounding white space, an optional sign, decimal digits;
  anything else raises \<^verbatim>\<open>ValueError\<close>.
\<close>

definition py_int :: "string \<Rightarrow> error + int" where
  "py_int s =
     (let t = strip s;
          neg = (t \<noteq> [] \<and> hd t = CHR ''-'');
          d = (if t \<noteq> [] \<and> (hd t = CHR ''-'' \<or> hd t = CHR ''+'') then tl t else t)
      in if d = [] then Inl ValueError
         else (case digits_val 0 d of
                 None \<Rightarrow> Inl ValueError
               | Some n \<Rightarrow> Inr (if neg then - int n else int n)))"

subsection \<open>Timestamps\<close>

text \<open>
  A naive \<^verbatim>\<open>datetime.datetime\<close>: year, month, day, hour, minute, second, microsecond.
  Python compares two of them chronologically, which is the lexicographic order of the
  components.
\<close>

type_synonym datetime = "int \<times> int \<times> int \<times> int \<times> int \<times> int \<times> int"

definition dt_year :: "datetime \<Rightarrow> int" where
  "dt_year t = fst t"

definition dt_month :: "datetime \<Rightarrow> int" where
  "dt_month t = fst (snd t)"

definition datetime_min :: datetime where
  "datetime_min = (1, 1, 1, 0, 0, 0, 0)"

definition is_leap :: "int \<Rightarrow> bool" where
  "is_leap y = (y mod 4 = 0 \<and> (y mod 100 \<noteq> 0 \<or> y mod 400 = 0))"

definition days_in_month :: "int \<Rightarrow> int \<Rightarrow> int" where
  "days_in_month y m =
     (if m = 2 then (if is_leap y then 29 else 28)
      else if m = 4 \<or> m = 6 \<or> m = 9 \<or> m = 11 then 30 else 31)"

text \<open>
  The constructor \<^verbatim>\<open>datetime.datetime(year, month, day, hour, minute, second)\<close>: it raises
  \<^verbatim>\<open>ValueError\<close> when a component is out of range.
\<close>

definition mk_datetime :: "int \<Rightarrow> int \<Rightarrow> int \<Rightarrow> int \<Rightarrow> int \<Rightarrow> int \<Rightarrow> error + datetime" where
  "mk_datetime y mo d h mi s =
     (if 1 \<le> y \<and> y \<le> 9999 \<and> 1 \<le> mo \<and> mo \<le> 12 \<and> 1 \<le> d \<and> d \<le> days_in_month y mo \<and>
         0 \<le> h \<and> h \<le> 23 \<and> 0 \<le> mi \<and> mi \<le> 59 \<and> 0 \<le> s \<and> s \<le> 59
      then Inr (y, mo, d, h, mi, s, 0) else Inl ValueError)"

definition str_date :: "datetime \<Rightarrow> string" where
  "str_date t = (case t of (y, mo, d, _) \<Rightarrow> zpad 4 y @ ''-'' @ zpad 2 mo @ ''-'' @ zpad 2 d)"

definition str_time :: "datetime \<Rightarrow> string" where
  "str_time t =
     (case t of (_, _, _, h, mi, s, us) \<Rightarrow>
        zpad 2 h @ '':'' @ zpad 2 mi @ '':'' @ zpad 2 s @
        (if us = 0 then [] else ''.'' @ zpad 6 us))"

definition isoformat :: "datetime \<Rightarrow> string" where
  "isoformat t = str_date t @ ''T'' @ str_time t"

subsection \<open>Regular-expression matches\<close>

text \<open>
  What a match object of \<^verbatim>\<open>re\<close> gives the program: \<^verbatim>\<open>span()\<close> and \<^verbatim>\<open>groupdict()\<close> (a named
  group that took no part in the match maps to \<^verbatim>\<open>None\<close>).
\<close>

record rmatch =
  span :: "nat \<times> nat"
  groupdict :: "pyval dict"

text \<open>
  The patterns of \<^verbatim>\<open>re\<close> that the program and its defaults use, in compiled form:
  literals, \<^verbatim>\<open>.\<close>, character classes given by ranges (negated or not), sequence,
  alternation, the greedy star, named groups and the anchors \<^verbatim>\<open>^\<close> and \<^verbatim>\<open>$\<close>.
\<close>

datatype rx =
    Eps
  | Lit char
  | Dot
  | Cls bool "(char \<times> char) list"
  | Seq rx rx
  | Alt rx rx
  | Star rx
  | Grp string rx
  | Bol
  | Eol

record rflags =
  ignorecase :: bool
  multiline :: bool
  dotall :: bool

definition lower_char :: "char \<Rightarrow> char" where
  "lower_char c =
     (if (65::nat) \<le> of_char c \<and> of_char c \<le> (90::nat) then char_of (of_char c + (32::nat)) else c)"

definition upper_char :: "char \<Rightarrow> char" where
  "upper_char c =
     (if (97::nat) \<le> of_char c \<and> of_char c \<le> (122::nat) then char_of (of_char c - (32::nat)) else c)"

definition lit_ok :: "rflags \<Rightarrow> char \<Rightarrow> char \<Rightarrow> bool" where
  "lit_ok f a c = (if ignorecase f then lower_char a = lower_char c else a = c)"

definition in_ranges :: "(char \<times> char) list \<Rightarrow> char \<Rightarrow> bool" where
  "in_ranges rs c =
     list_ex (\<lambda>(lo, hi). (of_char lo :: nat) \<le> of_char c \<and> (of_char c :: nat) \<le> of_char hi) rs"

definition cls_ok :: "rflags \<Rightarrow> bool \<Rightarrow> (char \<times> char) list \<Rightarrow> char \<Rightarrow> bool" where
  "cls_ok f neg rs c =
     ((if ignorecase f
       then in_ranges rs c \<or> in_ranges rs (lower_char c) \<or> in_ranges rs (upper_char c)
       else in_ranges rs c) \<noteq> neg)"

type_synonym caps = "(nat \<times> nat) dict"

text \<open>
  The backtracking matcher: every way the pattern matches the text \<open>t\<close> from position
  \<open>i\<close>, as the end position and the groups captured, in the order \<^verbatim>\<open>re\<close> tries them
  (left alternative first, longest repetition first). An iteration of a star that
  consumes nothing ends the repetition.
\<close>

function mt :: "rflags \<Rightarrow> rx \<Rightarrow> string \<Rightarrow> nat \<Rightarrow> caps \<Rightarrow> (nat \<times> caps) list" where
  "mt f Eps t i c = [(i, c)]"
| "mt f (Lit a) t i c = (if i < length t \<and> lit_ok f a (t ! i) then [(Suc i, c)] else [])"
| "mt f Dot t i c =
     (if i < length t \<and> (dotall f \<or> t ! i \<noteq> newline) then [(Suc i, c)] else [])"
| "mt f (Cls neg rs) t i c =
     (if i < length t \<and> cls_ok f neg rs (t ! i) then [(Suc i, c)] else [])"
| "mt f (Seq r s) t i c = concat (map (\<lambda>(j, c'). mt f s t j c') (mt f r t i c))"
| "mt f (Alt r s) t i c = mt f r t i c @ mt f s t i c"
| "mt f (Star r) t i c =
     concat (map (\<lambda>(j, c'). if i < j \<and> j \<le> length t then mt f (Star r) t j c' else [])
                 (mt f r t i c)) @ [(i, c)]"
| "mt f (Grp n r) t i c = map (\<lambda>(j, c'). (j, (n, (i, j)) # c')) (mt f r t i c)"
| "mt f Bol t i c =
     (if i = 0 \<or> (multiline f \<and> i \<le> length t \<and> t ! (i - 1) = newline) then [(i, c)] else [])"
| "mt f Eol t i c =
     (if i = length t \<or> (Suc i = length t \<and> t ! i = newline) \<or>
         (multiline f \<and> i < length t \<and> t ! i = newline)
      then [(i, c)] else [])"
  by pat_completeness auto
termination
  by (relation "inv_image (less_than <*lex*> less_than)
                 (\<lambda>(f, r, t, i, c). (size r, length t - i))") auto

declare mt.simps(7) [simp del]

fun group_names :: "rx \<Rightarrow> string list" where
  "group_names (Seq r s) = group_names r @ group_names s"
| "group_names (Alt r s) = group_names r @ group_names s"
| "group_names (Star r) = group_names r"
| "group_names (Grp n r) = n # group_names r"
| "group_names _ = []"

text \<open>The match object for the first way the pattern matches from position \<open>i\<close>.\<close>

definition match_at :: "rflags \<Rightarrow> rx \<Rightarrow> string \<Rightarrow> nat \<Rightarrow> rmatch option" where
  "match_at f r t i =
     (case mt f r t i [] of
        [] \<Rightarrow> None
      | (j, c) # _ \<Rightarrow>
          Some \<lparr>span = (i, j),
                groupdict = map (\<lambda>n. (n, case map_of c n of
                                            None \<Rightarrow> PyNone
                                          | Some (a, b) \<Rightarrow> PyStr (slice t a b)))
                                (remdups (group_names r))\<rparr>)"

fun first_match :: "rflags \<Rightarrow> rx \<Rightarrow> string \<Rightarrow> nat list \<Rightarrow> rmatch option" where
  "first_match f r t [] = None"
| "first_match f r t (i # is) =
     (case match_at f r t i of Some m \<Rightarrow> Some m | None \<Rightarrow> first_match f r t is)"

text \<open>A compiled pattern, \<^verbatim>\<open>re.compile(pattern, flags)\<close>, and its two methods.\<close>

record compiled =
  pat :: rx
  flags :: rflags

definition re_search :: "compiled \<Rightarrow> string \<Rightarrow> rmatch option" where
  "re_search p t = first_match (flags p) (pat p) t [0..<Suc (length t)]"

definition re_match :: "compiled \<Rightarrow> string \<Rightarrow> rmatch option" where
  "re_match p t = match_at (flags p) (pat p) t 0"

definition seqs :: "rx list \<Rightarrow> rx" where
  "seqs rs = foldr Seq rs Eps"

definition lits :: "string \<Rightarrow> rx" where
  "lits s = seqs (map Lit s)"

definition digit :: rx where
  "digit = Cls False [(CHR ''0'', CHR ''9'')]"

definition rep :: "nat \<Rightarrow> rx \<Rightarrow> rx" where
  "rep n r = seqs (replicate n r)"

definition plus :: "rx \<Rightarrow> rx" where
  "plus r = Seq r (Star r)"

text \<open>A match never ends before it starts nor beyond the end of the text.\<close>

lemma mt_bounds:
  "(j, c') \<in> set (mt f r t i c) \<Longrightarrow> i \<le> j \<and> (i \<le> length t \<longrightarrow> j \<le> length t)"
proof (induction f r t i c arbitrary: j c' rule: mt.induct)
  case (5 f r s t i c)
  from "5.prems" obtain k c1 where a: "(k, c1) \<in> set (mt f r t i c)"
    and b: "(j, c') \<in> set (mt f s t k c1)" by auto
  from "5.IH"(1)[OF a] "5.IH"(2)[OF a refl b] show ?case by auto
next
  case (7 f r t i c)
  from "7.prems" consider "(j, c') = (i, c)"
    | k c1 where "(k, c1) \<in> set (mt f r t i c)" "i < k" "k \<le> length t"
        "(j, c') \<in> set (mt f (Star r) t k c1)"
    by (subst (asm) mt.simps(7)) (auto split: if_splits)
  then show ?case
  proof cases
    case 1
    then show ?thesis by simp
  next
    case 2
    from "7.IH"(2)[OF 2(1) refl _ 2(4)] 2(2,3) show ?thesis by auto
  qed
qed (auto split: if_splits)

lemma match_at_span:
  assumes "match_at f r t i = Some m"
  shows "fst (span m) = i \<and> i \<le> snd (span m) \<and> (i \<le> length t \<longrightarrow> snd (span m) \<le> length t)"
proof -
  from assms obtain j c rest where hd: "mt f r t i [] = (j, c) # rest" and sp: "span m = (i, j)"
    by (auto simp: match_at_def split: list.splits)
  have "(j, c) \<in> set (mt f r t i [])" using hd by simp
  from mt_bounds[OF this] sp show ?thesis by simp
qed

lemma first_match_span:
  "first_match f r t is = Some m \<Longrightarrow>
   fst (span m) \<in> set is \<and> fst (span m) \<le> snd (span m) \<and>
   (fst (span m) \<le> length t \<longrightarrow> snd (span m) \<le> length t)"
proof (induction "is")
  case Nil
  then show ?case by simp
next
  case (Cons i "is")
  show ?case
  proof (cases "match_at f r t i")
    case None
    with Cons show ?thesis by simp
  next
    case (Some m')
    with Cons.prems have "m' = m" by simp
    with match_at_span[OF Some] show ?thesis by simp
  qed
qed

text \<open>
  \<^verbatim>\<open>re.split\<close> for a pattern that is one capturing group: the text before each match and
  the match itself, in turn, then the rest of the text. \<open>lst\<close> is the end of the previous
  match and \<open>pos\<close> the position the search resumes from; a match of nothing is skipped.
\<close>

function re_split :: "compiled \<Rightarrow> string \<Rightarrow> nat \<Rightarrow> nat \<Rightarrow> string list" where
  "re_split p t lst pos =
     (case first_match (flags p) (pat p) t [pos..<Suc (length t)] of
        None \<Rightarrow> [drop lst t]
      | Some m \<Rightarrow>
          (case span m of (b, e) \<Rightarrow>
             if b = e
             then (if length t \<le> b then [drop lst t] else re_split p t lst (Suc b))
             else slice t lst b # slice t b e # re_split p t e e))"
  by pat_completeness auto
termination
proof (relation "measure (\<lambda>(p, t, lst, pos). Suc (length t) - pos)", goal_cases)
  case 1
  then show ?case by simp
next
  case (2 p t lst pos m b e)
  from first_match_span[OF 2(1)] 2(2)[symmetric] 2(4) show ?case by auto
next
  case (3 p t lst pos m b e)
  from first_match_span[OF 3(1)] 3(2)[symmetric] 3(3) show ?case by auto
qed

declare re_split.simps [simp del]

subsection \<open>Event types\<close>

text \<open>
  \<^verbatim>\<open>class EventType\<close>. The three compiled patterns are held as their \<^verbatim>\<open>search\<close> methods;
  the hook bodies are source text.
\<close>

record EventType =
  name :: string
  description :: string
  multilineCount :: int
  caseSensitive :: bool
  immediate :: bool
  displayOnMatch :: "string option"
  displayIfChanged :: bool
  searchFilename :: "string \<Rightarrow> rmatch option"
  searchText :: "string \<Rightarrow> rmatch option"
  searchTimestamp :: "string \<Rightarrow> rmatch option"
  execOnInit :: "string option"
  execOnFile :: "string option"
  execOnMatch :: "string option"
  execOnWrapup :: "string option"

text \<open>The default patterns of the module (the version string does not contain \<^verbatim>\<open>aib\<close>).\<close>

definition defaultPathFilter :: rx where
  "defaultPathFilter = seqs [Star Dot, Lit CHR ''.'', lits ''log'', Star Dot]"

definition defaultRexTimestamp :: rx where
  "defaultRexTimestamp =
     seqs [Bol, Grp ''_Y'' (rep 4 digit), Lit CHR ''-'', Grp ''_D'' (rep 2 digit), Lit CHR ''-'',
           Grp ''_M'' (rep 2 digit), Lit CHR '' '', Grp ''_h'' (rep 2 digit), Lit CHR '':'',
           Grp ''_m'' (rep 2 digit), Lit CHR '':'', Grp ''_s'' (rep 2 digit)]"

definition defaultRexFilename :: rx where
  "defaultRexFilename = Star Dot"

definition defaultRexText :: rx where
  "defaultRexText = Star Dot"

definition getValid :: "'a option \<Rightarrow> 'a \<Rightarrow> 'a" where
  "getValid v alternative = (case v of Some x \<Rightarrow> x | None \<Rightarrow> alternative)"

definition nonempty :: "string option \<Rightarrow> string option" where
  "nonempty v = (case v of Some s \<Rightarrow> (if s = [] then None else Some s) | None \<Rightarrow> None)"

text \<open>
  \<^verbatim>\<open>EventType.init\<close>, with the patterns given in compiled form (\<open>None\<close> for a pattern that
  is missing or empty). The text pattern ignores case unless the type is case sensitive,
  and is compiled with \<^verbatim>\<open>MULTILINE | DOTALL\<close> when the window is larger than one line.
\<close>

definition EventType_init ::
  "rx option \<Rightarrow> rx option \<Rightarrow> rx option \<Rightarrow> int \<Rightarrow> bool \<Rightarrow> string option \<Rightarrow> string option \<Rightarrow>
   string option \<Rightarrow> bool \<Rightarrow> string option \<Rightarrow> string option \<Rightarrow> string option \<Rightarrow>
   string option \<Rightarrow> bool \<Rightarrow> EventType" where
  "EventType_init rexFilename rexText rexTimestamp mlCount caseSens nm descr dispOnMatch
     dispIfChanged onInit onMatch onWrapup onFile immed =
     (let plain = \<lparr>ignorecase = False, multiline = False, dotall = False\<rparr>;
          rexTextFlags = \<lparr>ignorecase = \<not> caseSens, multiline = (mlCount > 1),
                          dotall = (mlCount > 1)\<rparr>;
          cFilename = \<lparr>pat = getValid rexFilename defaultRexFilename, flags = plain\<rparr>;
          cText = \<lparr>pat = getValid rexText defaultRexText, flags = rexTextFlags\<rparr>;
          cTimestamp = \<lparr>pat = getValid rexTimestamp defaultRexTimestamp, flags = plain\<rparr>
      in \<lparr>name = getValid (nonempty nm) ''DEFAULT_EVENT_TYPE'',
          description = getValid (nonempty descr) ''N/A'',
          multilineCount = mlCount,
          caseSensitive = caseSens,
          immediate = immed,
          displayOnMatch = dispOnMatch,
          displayIfChanged = dispIfChanged,
          searchFilename = (\<lambda>path. re_search cFilename (basename path)),
          searchText = re_search cText,
          searchTimestamp = re_search cTimestamp,
          execOnInit = nonempty onInit,
          execOnFile = nonempty onFile,
          execOnMatch = nonempty onMatch,
          execOnWrapup = nonempty onWrapup\<rparr>)"

subsection \<open>Events\<close>

record Event =
  eventType :: EventType
  sfields :: "pyval dict"
  ufields :: "pyval dict"
  seqnum :: int
  timestamp :: datetime
  timestampSpan :: "nat \<times> nat"

definition setRaw :: "Event \<Rightarrow> string \<Rightarrow> Event" where
  "setRaw ev raw = ev\<lparr>sfields := dict_set (sfields ev) ''_raw'' (PyStr raw)\<rparr>"


definition setSeqnum :: "Event \<Rightarrow> int \<Rightarrow> Event" where
  "setSeqnum ev num =
     ev\<lparr>seqnum := num,
        sfields := dict_set (sfields ev) ''_sequence_number'' (PyStr (str_int num))\<rparr>"

definition setTimestamp :: "Event \<Rightarrow> datetime option \<Rightarrow> Event" where
  "setTimestamp ev ts =
     (let t = (case ts of Some t \<Rightarrow> t | None \<Rightarrow> datetime_min);
          s1 = dict_set (sfields ev) ''_timestamp'' (PyStr (isoformat t));
          s2 = dict_set s1 ''_date'' (PyStr (str_date t));
          s3 = dict_set s2 ''_time'' (PyStr (str_time t))
      in ev\<lparr>timestamp := t, sfields := s3\<rparr>)"

text \<open>\<^verbatim>\<open>Event.__init__(eventType, path)\<close>.\<close>

definition Event_init :: "EventType \<Rightarrow> string \<Rightarrow> Event" where
  "Event_init evt path =
     (let s1 = dict_set [] ''_name'' (PyStr (name evt));
          s2 = dict_set s1 ''_description''
                 (PyStr (if description evt \<noteq> [] then description evt else []));
          s3 = dict_set s2 ''_source_path'' (PyStr path);
          s4 = dict_set s3 ''_source_filename'' (PyStr (basename path));
          s5 = dict_set s4 ''_display_on_match'' PyNone;
          u1 = dict_set [] ''_changed_fields'' PyNone;
          ev0 = \<lparr>eventType = evt, sfields = s5, ufields = u1, seqnum = - 1,
                 timestamp = datetime_min, timestampSpan = (0, 0)\<rparr>
      in (setTimestamp (setSeqnum ev0 (- 1)) None)\<lparr>timestampSpan := (0, 0)\<rparr>)"

text \<open>
  \<^verbatim>\<open>set_field\<close> and \<^verbatim>\<open>add_field\<close>: the exception, if one is raised, and the event after the
  call.
\<close>

definition set_field :: "Event \<Rightarrow> string \<Rightarrow> pyval \<Rightarrow> error option \<times> Event" where
  "set_field ev nm v =
     (if dict_has (sfields ev) nm
      then (Some (RuntimeError (''Overwriting '' @ nm @ '' system field not allowed'')), ev)
      else (None, ev\<lparr>ufields := dict_set (ufields ev) nm v\<rparr>))"

definition add_field :: "Event \<Rightarrow> string \<Rightarrow> pyval \<Rightarrow> error option \<times> Event" where
  "add_field ev nm v =
     (if dict_has (sfields ev) nm \<or> dict_has (ufields ev) nm
      then (Some (RuntimeError (''Field '' @ nm @ '' already exists'')), ev)
      else (None, ev\<lparr>ufields := dict_set (ufields ev) nm v\<rparr>))"

definition virtual_fields :: "string list" where
  "virtual_fields = [''_user_fields'', ''_system_fields'', ''_flat'', ''_core'', ''_flat_core'']"

definition has_field :: "Event \<Rightarrow> string \<Rightarrow> bool" where
  "has_field ev nm =
     (nm \<in> set virtual_fields \<or> dict_has (ufields ev) nm \<or> dict_has (sfields ev) nm)"

text \<open>
  \<^verbatim>\<open>self.sfields['_raw']\<close> where a string is needed: a missing entry raises \<^verbatim>\<open>KeyError\<close>,
  and on \<^verbatim>\<open>None\<close> the operation applied to it raises \<open>on_none\<close>.
\<close>

definition raw_of :: "Event \<Rightarrow> error \<Rightarrow> error + string" where
  "raw_of ev on_none =
     (case dict_get (sfields ev) ''_raw'' of
        Inl e \<Rightarrow> Inl e
      | Inr PyNone \<Rightarrow> Inl on_none
      | Inr (PyStr raw) \<Rightarrow> Inr raw)"

definition core_of :: "Event \<Rightarrow> string \<Rightarrow> string" where
  "core_of ev raw =
     slice raw 0 (fst (timestampSpan ev)) @ drop (snd (timestampSpan ev)) raw"

text \<open>
  \<^verbatim>\<open>get_field(name)\<close>. \<open>dstr\<close> is \<^verbatim>\<open>str\<close> on a dictionary of fields, a parameter of the model:
  Python renders the entries in the order of its hash table. On a raw text that is \<^verbatim>\<open>None\<close>
  the method call of \<^verbatim>\<open>_flat\<close> raises \<^verbatim>\<open>AttributeError\<close> and the slice of \<^verbatim>\<open>_core\<close> and
  \<^verbatim>\<open>_flat_core\<close> raises \<^verbatim>\<open>TypeError\<close>.
\<close>

definition get_field :: "(pyval dict \<Rightarrow> string) \<Rightarrow> Event \<Rightarrow> string \<Rightarrow> error + pyval" where
  "get_field dstr ev nm =
     (if dict_has (ufields ev) nm then dict_get (ufields ev) nm
      else if dict_has (sfields ev) nm then dict_get (sfields ev) nm
      else if nm = ''_user_fields'' then Inr (PyStr (dstr (ufields ev)))
      else if nm = ''_system_fields'' then Inr (PyStr (dstr (sfields ev)))
      else if nm = ''_flat'' then
        (case raw_of ev AttributeError of Inl e \<Rightarrow> Inl e
         | Inr raw \<Rightarrow> Inr (PyStr (replace_char newline [] raw)))
      else if nm = ''_core'' then
        (case raw_of ev TypeError of Inl e \<Rightarrow> Inl e
         | Inr raw \<Rightarrow> Inr (PyStr (core_of ev raw)))
      else if nm = ''_flat_core'' then
        (case raw_of ev TypeError of Inl e \<Rightarrow> Inl e
         | Inr raw \<Rightarrow> Inr (PyStr (replace_char newline [] (core_of ev raw))))
      else Inl (RuntimeError (''Field '' @ nm @ '' not found'')))"

text \<open>
  \<^verbatim>\<open>parseText(textRexResult)\<close>: the named groups of the text match become the user fields,
  replacing the whole dictionary.
\<close>

definition parseText :: "Event \<Rightarrow> rmatch option \<Rightarrow> error option \<times> Event" where
  "parseText ev textRexResult =
     (case (case textRexResult of
              Some m \<Rightarrow> Inr (Some m)
            | None \<Rightarrow> (case raw_of ev TypeError of Inl e \<Rightarrow> Inl e
                       | Inr raw \<Rightarrow> Inr (searchText (eventType ev) raw))) of
        Inl e \<Rightarrow> (Some e, ev)
      | Inr None \<Rightarrow> (Some (AssertionError []), ev)
      | Inr (Some m) \<Rightarrow> (None, ev\<lparr>ufields := groupdict m\<rparr>))"

text \<open>
  The first loop of \<^verbatim>\<open>parseTimestamp\<close>: a group with a non-empty value whose name is \<^verbatim>\<open>_\<close>,
  one of the letters \<^verbatim>\<open>YMDhms\<close> and at most one digit is recorded under its letter.
\<close>

fun ts_names :: "pyval dict \<Rightarrow> string dict \<Rightarrow> error + string dict" where
  "ts_names [] names = Inr names"
| "ts_names ((k, v) # rest) names =
     (case v of
        PyNone \<Rightarrow> ts_names rest names
      | PyStr s \<Rightarrow>
          if s = [] then ts_names rest names
          else if k = [] then Inl IndexError
          else if hd k = CHR ''_'' \<and> (length k = 2 \<or> length k = 3) \<and>
                  k ! 1 \<in> set ''YMDhms'' \<and>
                  (length k = 2 \<or>
                   (length k = 3 \<and> (of_char (CHR ''0'') :: nat) \<le> of_char (k ! 2) \<and>
                    (of_char (k ! 2) :: nat) \<le> of_char (CHR ''9'')))
               then ts_names rest (dict_set names [k ! 1] k)
               else ts_names rest names)"

text \<open>\<^verbatim>\<open>tsfields[names[letter]]\<close>, a string.\<close>

definition ts_field :: "pyval dict \<Rightarrow> string dict \<Rightarrow> string \<Rightarrow> error + string" where
  "ts_field tsfields names letter =
     (case dict_get names letter of
        Inl e \<Rightarrow> Inl e
      | Inr k \<Rightarrow>
          (case dict_get tsfields k of
             Inl e \<Rightarrow> Inl e
           | Inr PyNone \<Rightarrow> Inl TypeError
           | Inr (PyStr s) \<Rightarrow> Inr s))"

definition ebind :: "error + 'a \<Rightarrow> ('a \<Rightarrow> error + 'b) \<Rightarrow> error + 'b" where
  "ebind x f = (case x of Inl e \<Rightarrow> Inl e | Inr v \<Rightarrow> f v)"

definition months :: "int dict" where
  "months = [(''JAN'', 1), (''FEB'', 2), (''MAR'', 3), (''APR'', 4), (''MAY'', 5), (''JUN'', 6),
             (''JUL'', 7), (''AUG'', 8), (''SEP'', 9), (''OCT'', 10), (''NOV'', 11), (''DEC'', 12)]"

text \<open>The year of a captured year field: \<^verbatim>\<open>year = int(...); if year < 100: year += 2000\<close>.\<close>

definition parse_year :: "string \<Rightarrow> error + int" where
  "parse_year s = ebind (py_int s) (\<lambda>year. Inr (if year < 100 then year + 2000 else year))"

text \<open>The month of a captured month field, numeric or by name.\<close>

definition parse_month :: "string \<Rightarrow> error + int" where
  "parse_month m =
     (if length m \<le> 2 then py_int m
      else dict_get months (map upper_char (take 3 m)))"

text \<open>
  From the named groups of the timestamp match to the \<^verbatim>\<open>datetime\<close>. \<open>now\<close> is the reading
  of the clock, used for the year when neither a year field nor a source time is there.
\<close>

definition ts_datetime :: "datetime \<Rightarrow> pyval dict \<Rightarrow> datetime option \<Rightarrow> error + datetime" where
  "ts_datetime now tsfields sourceTime =
     ebind (ts_names tsfields []) (\<lambda>names.
       if length names < 4 then Inl (AssertionError ''Not enough timestamp fields'')
       else
         ebind (if dict_has names ''Y''
                then ebind (ts_field tsfields names ''Y'') parse_year
                else Inr (case sourceTime of Some t \<Rightarrow> dt_year t | None \<Rightarrow> dt_year now))
           (\<lambda>year.
         ebind (ebind (ts_field tsfields names ''M'') parse_month) (\<lambda>month.
         ebind (if dict_has names ''s''
                then ebind (ts_field tsfields names ''s'') py_int else Inr 0) (\<lambda>second.
         ebind (ebind (ts_field tsfields names ''D'') py_int) (\<lambda>day.
         ebind (ebind (ts_field tsfields names ''h'') py_int) (\<lambda>hour.
         ebind (ebind (ts_field tsfields names ''m'') py_int) (\<lambda>minute.
           mk_datetime year month day hour minute second)))))))"

text \<open>
  The last loop of \<^verbatim>\<open>parseTimestamp\<close>: every group with a value whose name does not start
  with \<^verbatim>\<open>_\<close> is added as a user field; \<^verbatim>\<open>add_field\<close> may raise.
\<close>

fun ts_add_fields :: "Event \<Rightarrow> pyval dict \<Rightarrow> error option \<times> Event" where
  "ts_add_fields ev [] = (None, ev)"
| "ts_add_fields ev ((k, v) # rest) =
     (if v \<noteq> PyNone
      then (if k = [] then (Some IndexError, ev)
            else if hd k \<noteq> CHR ''_''
            then (case add_field ev k v of
                    (Some e, ev') \<Rightarrow> (Some e, ev')
                  | (None, ev') \<Rightarrow> ts_add_fields ev' rest)
            else ts_add_fields ev rest)
      else ts_add_fields ev rest)"

text \<open>
  \<^verbatim>\<open>parseTimestamp(alternativeText, sourceTime)\<close>. The message of the first assertion reads
  \<^verbatim>\<open>self.sfields['_raw']\<close>, so a missing raw text turns the failure into a \<^verbatim>\<open>KeyError\<close>.
\<close>

definition parseTimestamp ::
  "datetime \<Rightarrow> Event \<Rightarrow> string option \<Rightarrow> datetime option \<Rightarrow> error option \<times> Event" where
  "parseTimestamp now ev alternativeText sourceTime =
     (case (if alternativeText \<noteq> None \<and> alternativeText \<noteq> Some []
            then Inr (the alternativeText) else raw_of ev TypeError) of
        Inl e \<Rightarrow> (Some e, ev)
      | Inr txt \<Rightarrow>
          (case searchTimestamp (eventType ev) txt of
             None \<Rightarrow>
               (case dict_get (sfields ev) ''_raw'' of
                  Inl e \<Rightarrow> (Some e, ev)
                | Inr v \<Rightarrow>
                    (Some (AssertionError
                       (''Timestamp regex does not match in'' @
                        (case v of PyNone \<Rightarrow> ''None'' | PyStr raw \<Rightarrow> raw))), ev))
           | Some ts \<Rightarrow>
               (case ts_datetime now (groupdict ts) sourceTime of
                  Inl e \<Rightarrow> (Some e, ev)
                | Inr t \<Rightarrow>
                    ts_add_fields ((setTimestamp ev (Some t))\<lparr>timestampSpan := span ts\<rparr>)
                      (groupdict ts))))"

subsection \<open>The event store\<close>

text \<open>
  Event objects are shared: the same object is referenced from the list of its type, from
  the flat sequence and from the scan's unfinished events, and it is mutated after it was
  stored. The model therefore keeps the objects in a store, \<open>heap\<close>, and the lists hold
  references into it.
\<close>

type_synonym ref = nat

type_synonym heap = "ref \<Rightarrow> Event"

text \<open>
  \<^verbatim>\<open>class EventSet(dict)\<close>: \<open>bytype\<close> is the dictionary itself (event type name to the list
  of its events), in the order \<^verbatim>\<open>values()\<close> visits it.
\<close>

record EventSet =
  bytype :: "ref list dict"
  sequence :: "ref list"
  curSeqnum :: int

definition EventSet_init :: "EventType dict \<Rightarrow> EventSet" where
  "EventSet_init eventTypes =
     \<lparr>bytype = fold (\<lambda>k d. dict_set d k []) (map fst eventTypes) [],
      sequence = [], curSeqnum = 0\<rparr>"

definition add_event :: "heap \<times> EventSet \<Rightarrow> ref \<Rightarrow> error option \<times> (heap \<times> EventSet)" where
  "add_event st r =
     (case st of (h, es) \<Rightarrow>
        let h1 = h(r := setSeqnum (h r) (curSeqnum es));
            es1 = es\<lparr>curSeqnum := curSeqnum es + 1\<rparr>;
            nm = name (eventType (h1 r))
        in (case dict_get (bytype es1) nm of
              Inl e \<Rightarrow> (Some e, (h1, es1))
            | Inr l \<Rightarrow>
                (None, (h1, es1\<lparr>bytype := dict_set (bytype es1) nm (l @ [r]),
                                sequence := sequence es1 @ [r]\<rparr>))))"

text \<open>
  The \<^verbatim>\<open>before\<close> argument of a query: a \<^verbatim>\<open>datetime\<close> (it has \<^verbatim>\<open>utcfromtimestamp\<close> and, in
  Python 2, no \<^verbatim>\<open>timestamp\<close> attribute) or an event (it has \<^verbatim>\<open>timestamp\<close> and \<^verbatim>\<open>seqnum\<close>).
\<close>

datatype before_arg = BeforeTime datetime | BeforeEvent ref

definition fields_match :: "Event \<Rightarrow> pyval dict \<Rightarrow> bool" where
  "fields_match ev flds =
     list_all (\<lambda>kf.
        \<not> ((\<not> dict_has (sfields ev) kf \<and> \<not> dict_has (ufields ev) kf) \<or>
            (dict_has (ufields ev) kf \<and> map_of (ufields ev) kf \<noteq> map_of flds kf) \<or>
            (dict_has (sfields ev) kf \<and> map_of (sfields ev) kf \<noteq> map_of flds kf)))
       (map fst flds)"

definition before_excludes :: "heap \<Rightarrow> before_arg \<Rightarrow> Event \<Rightarrow> bool" where
  "before_excludes h before ev =
     (case before of
        BeforeEvent b \<Rightarrow> timestamp (h b) < timestamp ev \<or> seqnum (h b) \<le> seqnum ev
      | BeforeTime t \<Rightarrow> t < timestamp ev)"

definition isMatching ::
  "heap \<Rightarrow> string option \<Rightarrow> pyval dict option \<Rightarrow> before_arg option \<Rightarrow> ref \<Rightarrow> bool" where
  "isMatching h nm flds before r =
     (let ev = h r;
          m1 = \<not> (nm \<noteq> None \<and> Some (name (eventType ev)) \<noteq> nm);
          m2 = (if m1 \<and> flds \<noteq> None then fields_match ev (the flds) else m1);
          m3 = (if m2 \<and> before \<noteq> None then \<not> before_excludes h (the before) ev else m2)
      in m3)"

text \<open>The loop of \<^verbatim>\<open>get_events\<close>; \<open>num\<close> counts the events yielded so far.\<close>

fun get_events_loop ::
  "heap \<Rightarrow> string option \<Rightarrow> pyval dict option \<Rightarrow> before_arg option \<Rightarrow> int \<Rightarrow> int \<Rightarrow>
   ref list \<Rightarrow> ref list" where
  "get_events_loop h nm flds before limit num [] = []"
| "get_events_loop h nm flds before limit num (r # rs) =
     (if isMatching h nm flds before r
      then r # (if num + 1 = limit then []
                else get_events_loop h nm flds before limit (num + 1) rs)
      else get_events_loop h nm flds before limit num rs)"

text \<open>
  \<^verbatim>\<open>get_events(name, flds, before, limit)\<close>: the events the generator yields, in order, or
  the assertion it fails.
\<close>

definition get_events ::
  "heap \<times> EventSet \<Rightarrow> string option \<Rightarrow> pyval dict option \<Rightarrow> before_arg option \<Rightarrow> int \<Rightarrow>
   error + ref list" where
  "get_events st nm flds before limit =
     (case st of (h, es) \<Rightarrow>
        (case nm of
           None \<Rightarrow> Inr (get_events_loop h nm flds before limit 0 (rev (sequence es)))
         | Some n \<Rightarrow>
             (case map_of (bytype es) n of
                None \<Rightarrow> Inl (AssertionError
                  (''Given event name '' @ n @ '' is not known in event set''))
              | Some l \<Rightarrow> Inr (get_events_loop h nm flds before limit 0 (rev l)))))"

definition get_event ::
  "heap \<times> EventSet \<Rightarrow> string option \<Rightarrow> pyval dict option \<Rightarrow> before_arg option \<Rightarrow>
   error + ref option" where
  "get_event st nm flds before =
     (case get_events st nm flds before 1 of
        Inl e \<Rightarrow> Inl e
      | Inr [] \<Rightarrow> Inr None
      | Inr (e # _) \<Rightarrow> Inr (Some e))"

text \<open>
  \<^verbatim>\<open>Event.__cmp__\<close>: it returns no value when timestamp and sequence number are both equal,
  and a comparison that gets no integer raises \<^verbatim>\<open>TypeError\<close>.
\<close>

definition Event_cmp :: "Event \<Rightarrow> Event \<Rightarrow> error + int" where
  "Event_cmp a b =
     (if timestamp a \<noteq> timestamp b then Inr (if timestamp a < timestamp b then - 1 else 1)
      else if seqnum a \<noteq> seqnum b then Inr (if seqnum a < seqnum b then - 1 else 1)
      else Inl TypeError)"

text \<open>
  \<^verbatim>\<open>list.sort()\<close> on a list of events. The library's algorithm is a stable comparison
  sort; it is written here as an insertion sort with \<^verbatim>\<open>__cmp__\<close>. Two entries that
  \<^verbatim>\<open>__cmp__\<close> cannot order have no third entry between them, so every comparison sort
  has to compare them and fails.
\<close>

fun py_insort :: "heap \<Rightarrow> ref \<Rightarrow> ref list \<Rightarrow> error + ref list" where
  "py_insort h x [] = Inr [x]"
| "py_insort h x (y # ys) =
     (case Event_cmp (h y) (h x) of
        Inl e \<Rightarrow> Inl e
      | Inr c \<Rightarrow>
          if c < 0
          then (case py_insort h x ys of Inl e \<Rightarrow> Inl e | Inr zs \<Rightarrow> Inr (y # zs))
          else Inr (x # y # ys))"

fun py_sort :: "heap \<Rightarrow> ref list \<Rightarrow> error + ref list" where
  "py_sort h [] = Inr []"
| "py_sort h (x # xs) =
     (case py_sort h xs of Inl e \<Rightarrow> Inl e | Inr ys \<Rightarrow> py_insort h x ys)"

text \<open>
  The first loop of \<^verbatim>\<open>sortEvents\<close>: each list is sorted in place and appended to the new
  sequence. \<open>acc\<close> holds the entries already visited.
\<close>

fun sort_each ::
  "heap \<Rightarrow> ref list dict \<Rightarrow> ref list dict \<Rightarrow> ref list \<Rightarrow>
   error option \<times> ref list dict \<times> ref list" where
  "sort_each h acc [] sq = (None, acc, sq)"
| "sort_each h acc ((k, l) # rest) sq =
     (case py_sort h l of
        Inl e \<Rightarrow> (Some e, acc @ (k, l) # rest, sq)
      | Inr l' \<Rightarrow> sort_each h (acc @ [(k, l')]) rest (sq @ l'))"

text \<open>The last loop of \<^verbatim>\<open>sortEvents\<close>: \<^verbatim>\<open>self.sequence[i].setSeqnum(i)\<close>.\<close>

fun renumber :: "heap \<Rightarrow> int \<Rightarrow> ref list \<Rightarrow> heap" where
  "renumber h i [] = h"
| "renumber h i (r # rs) = renumber (h(r := setSeqnum (h r) i)) (i + 1) rs"

text \<open>\<^verbatim>\<open>sortEvents\<close>: the exception if any, the state it leaves and the list it returns.\<close>

definition sortEvents :: "heap \<times> EventSet \<Rightarrow> error option \<times> (heap \<times> EventSet) \<times> ref list" where
  "sortEvents st =
     (case st of (h, es) \<Rightarrow>
        (case sort_each h [] (bytype es) [] of
           (Some e, d, sq) \<Rightarrow> (Some e, (h, es\<lparr>bytype := d, sequence := sq\<rparr>), [])
         | (None, d, sq) \<Rightarrow>
             (case py_sort h sq of
                Inl e \<Rightarrow> (Some e, (h, es\<lparr>bytype := d, sequence := sq\<rparr>), [])
              | Inr sq' \<Rightarrow>
                  (None, (renumber h 0 sq', es\<lparr>bytype := d, sequence := sq'\<rparr>), sq'))))"

text \<open>The events of the store, list by list, and the key \<^verbatim>\<open>__cmp__\<close> orders them by.\<close>

definition all_events :: "EventSet \<Rightarrow> ref list" where
  "all_events es = concat (map snd (bytype es))"

definition ev_key :: "heap \<Rightarrow> ref \<Rightarrow> datetime \<times> int" where
  "ev_key h r = (timestamp (h r), seqnum (h r))"

text \<open>
  The invariant of a store that was filled by insertions: no event is referenced twice,
  and the stored events have pairwise different sequence numbers below the next one.
\<close>

definition store_inv :: "heap \<Rightarrow> EventSet \<Rightarrow> bool" where
  "store_inv h es =
     (distinct (all_events es) \<and>
      distinct (map (\<lambda>r. seqnum (h r)) (all_events es)) \<and>
      list_all (\<lambda>r. seqnum (h r) < curSeqnum es) (all_events es))"

subsection \<open>Hooks\<close>

text \<open>
  The hook bodies are Python source run by \<^verbatim>\<open>exec\<close> against the event store. What running
  one does is a parameter of the model, \<open>exec\<close>: from the source text, the current event
  (for the \<^verbatim>\<open>Match\<close> phase) and the store to the exception raised, if any, and the store
  after the run. \<open>now\<close> is the reading of the clock and \<open>dict_str\<close> is \<^verbatim>\<open>str\<close> on a dictionary
  of fields.
\<close>

record env =
  now :: datetime
  exec :: "string \<Rightarrow> ref option \<Rightarrow> heap \<times> EventSet \<Rightarrow> error option \<times> (heap \<times> EventSet)"
  dict_str :: "pyval dict \<Rightarrow> string"



subsection \<open>Templates\<close>

text \<open>The pattern \<^verbatim>\<open>({[^{}]+})\<close> of \<^verbatim>\<open>replaceFields\<close>.\<close>

definition placeholder_rx :: compiled where
  "placeholder_rx =
     \<lparr>pat = Grp ''1'' (seqs [Lit CHR 0x7B,
                             plus (Cls True [(CHR 0x7B, CHR 0x7B), (CHR 0x7D, CHR 0x7D)]),
                             Lit CHR 0x7D]),
      flags = \<lparr>ignorecase = False, multiline = False, dotall = False\<rparr>\<rparr>"

definition quoted :: "string \<Rightarrow> string" where
  "quoted s = [CHR 0x27] @ s @ [CHR 0x27]"

text \<open>
  The value one placeholder stands for (\<open>tr\<close> is \<^verbatim>\<open>trans\<close> of the source); \<open>part\<close> is the
  placeholder with its braces, \<open>r\<close> the event being rendered.
\<close>

definition resolve :: "env \<Rightarrow> heap \<times> EventSet \<Rightarrow> ref \<Rightarrow> string \<Rightarrow> error + pyval" where
  "resolve en st r part =
     (let self = fst st r;
          src = strip (butlast (tl part))
      in case partition_char CHR ''@'' src of (fieldname, sep, src1) \<Rightarrow>
         if sep = [] then
           (if has_field self fieldname then get_field (dict_str en) self fieldname
            else Inr (PyStr (''FIELD '' @ quoted fieldname @ '' NOT FOUND'')))
         else
           (case partition_char CHR '':'' src1 of (evname, sep2, src2) \<Rightarrow>
              if \<not> dict_has (bytype (snd st)) evname
              then Inr (PyStr (''EVENT TYPE '' @ quoted evname @ '' NOT FOUND''))
              else
                (case (if sep2 = []
                       then ebind (get_event st (Some evname) None (Some (BeforeEvent r)))
                              (\<lambda>ev. Inr (ev, PyStr ''NO MATCHING EVENT''))
                       else
                         (case partition_char CHR ''='' src2 of (rfieldname, sep3, cfieldname) \<Rightarrow>
                            if sep3 = []
                            then Inr (None, PyStr (''LOOKUP CONDITION '' @ quoted src2 @ '' NOT VALID''))
                            else if \<not> has_field self cfieldname
                            then Inr (None, PyStr (''COMPARISON FIELD '' @ quoted fieldname @
                                                   '' NOT FOUND''))
                            else
                              ebind (get_field (dict_str en) self cfieldname) (\<lambda>cv.
                              ebind (get_event st (Some evname) (Some [(rfieldname, cv)])
                                       (Some (BeforeEvent r)))
                                (\<lambda>ev. Inr (ev, PyStr ''NO MATCHING EVENT''))))) of
                   Inl e \<Rightarrow> Inl e
                 | Inr (None, tr) \<Rightarrow> Inr tr
                 | Inr (Some ev, tr) \<Rightarrow>
                     if has_field (fst st ev) fieldname then get_field (dict_str en) (fst st ev) fieldname
                     else Inr (PyStr (''FIELD '' @ quoted fieldname @ '' NOT IN FOUND EVENT'')))))"

text \<open>
  The loop over \<^verbatim>\<open>parts[1], parts[3], ...\<close>: each placeholder is followed by the text up
  to the next one.
\<close>

fun render_parts :: "env \<Rightarrow> heap \<times> EventSet \<Rightarrow> ref \<Rightarrow> string list \<Rightarrow> error + string" where
  "render_parts en st r [] = Inr []"
| "render_parts en st r [part] = Inl IndexError"
| "render_parts en st r (part # txt # rest) =
     (case resolve en st r part of
        Inl e \<Rightarrow> Inl e
      | Inr tr \<Rightarrow>
          (case render_parts en st r rest of
             Inl e \<Rightarrow> Inl e
           | Inr s \<Rightarrow> Inr ((case tr of PyNone \<Rightarrow> ''N/A'' | PyStr v \<Rightarrow> v) @ txt @ s)))"

definition replaceFields :: "env \<Rightarrow> heap \<times> EventSet \<Rightarrow> ref \<Rightarrow> string \<Rightarrow> error + string" where
  "replaceFields en st r txt =
     (let res1 = replace2 (CHR 0x5C) CHR ''t'' [CHR 0x09] txt;
          res2 = replace2 (CHR 0x5C) CHR ''n'' [newline] res1;
          parts = re_split placeholder_rx res2 0 0
      in case render_parts en st r (tl parts) of
           Inl e \<Rightarrow> Inl e
         | Inr s \<Rightarrow> Inr (hd parts @ s))"



subsection \<open>The multiline scan\<close>

text \<open>
  \<^verbatim>\<open>class EventSearchContext\<close>. \<open>objs\<close> is the store of the event objects and \<open>nextRef\<close>
  the reference the next new object gets; \<open>backlog\<close> is \<^verbatim>\<open>self.lines\<close>, newest line first,
  a \<^verbatim>\<open>deque\<close> of at most 100 lines. The counters of \<^verbatim>\<open>printAdvancement\<close> only feed its
  output and are left out.
\<close>

record EventSearchContext =
  verbosity :: int
  eventTypes :: "EventType dict"
  chronological :: bool
  numProcessedLines :: int
  numFoundEvents :: int
  events :: EventSet
  objs :: heap
  nextRef :: ref
  searchFilePath :: string
  searchFileTime :: "datetime option"
  searchEventTypes :: "EventType list"
  backlog :: "string list"
  unfinishedEvents :: "ref dict"
  linenum :: int
  eventLinesCount :: int















subsection \<open>Source discovery\<close>

text \<open>
  What the scan sees of the file system. A regular file, or an open handle on an archive
  member, is its modification time, its size and what the two openers make of it:
  \<open>as_tar\<close> is \<open>None\<close> when \<^verbatim>\<open>tarfile.open\<close> raises on it and the members otherwise, and
  \<open>as_zip\<close> the same for \<^verbatim>\<open>zipfile.ZipFile\<close>. A member has a name, a time, a size and the
  handle that \<^verbatim>\<open>extractfile\<close> or \<^verbatim>\<open>open\<close> returns for it (\<open>None\<close> for a tar member that is
  not a regular file).
\<close>

datatype fobj =
  File (f_mtime: datetime) (f_size: nat) (as_tar: "member list option")
       (as_zip: "member list option")
and member =
  Member (m_name: string) (m_mtime: datetime) (m_size: nat) (m_file: "fobj option")

text \<open>
  A path of the file system: a directory, as the list \<^verbatim>\<open>os.walk\<close> yields for it (each
  directory path with its files), or a regular file.
\<close>

datatype fsentry =
    FsDir "(string \<times> (string \<times> fobj) list) list"
  | FsFile fobj

record LogSourceFile =
  lf_path :: string
  lf_time :: datetime
  lf_size :: nat
  lf_fields :: "pyval dict"

text \<open>
  \<^verbatim>\<open>class LogSource\<close>. The relative path and the pseudo-path that \<^verbatim>\<open>add\<close> derives from
  the log path are not modelled.
\<close>

record LogSource =
  src_type :: string
  src_path :: string
  logs :: "LogSourceFile list"
  earliest :: datetime
  latest :: datetime

definition datetime_max :: datetime where
  "datetime_max = (9999, 12, 31, 23, 59, 59, 999999)"

definition LogSource_init :: "string \<Rightarrow> string \<Rightarrow> LogSource" where
  "LogSource_init ty path =
     \<lparr>src_type = ty, src_path = path, logs = [], earliest = datetime_max,
      latest = datetime_min\<rparr>"

text \<open>\<^verbatim>\<open>LogSource.add\<close>, with the time and the size it reads for the log path.\<close>

definition LogSource_add ::
  "LogSource \<Rightarrow> string \<Rightarrow> datetime \<Rightarrow> nat \<Rightarrow> pyval dict \<Rightarrow> LogSource" where
  "LogSource_add src logpath tm0 sz flds =
     (let tm = (case tm0 of (y, mo, d, h, mi, s, us) \<Rightarrow> (y, mo, d, h, mi, s, 0));
          src1 = (if tm < earliest src then src\<lparr>earliest := tm\<rparr> else src);
          src2 = (if tm > latest src1 then src1\<lparr>latest := tm\<rparr> else src1)
      in src2\<lparr>logs := logs src2 @
                  [\<lparr>lf_path = logpath, lf_time = tm, lf_size = sz, lf_fields = flds\<rparr>]\<rparr>)"

text \<open>\<^verbatim>\<open>class LogSet\<close>; \<open>singleLogFiles\<close> exists once \<^verbatim>\<open>scanPaths\<close> has set it.\<close>

record LogSet =
  rexPathFilter :: compiled
  sources :: "LogSource list"
  singleLogFiles :: "LogSource option"

definition LogSet_init :: "rx \<Rightarrow> LogSet" where
  "LogSet_init pathFilter =
     \<lparr>rexPathFilter = \<lparr>pat = pathFilter,
                        flags = \<lparr>ignorecase = True, multiline = False, dotall = False\<rparr>\<rparr>,
      sources = [], singleLogFiles = None\<rparr>"

text \<open>
  \<^verbatim>\<open>checkPathFilter(path)\<close>: the named groups of the match of the path filter against the
  path with \<^verbatim>\<open>/\<close> for every backslash, or \<open>None\<close>.
\<close>

definition checkPathFilter :: "LogSet \<Rightarrow> string \<Rightarrow> pyval dict option" where
  "checkPathFilter ls path =
     (case re_match (rexPathFilter ls) (replace_char (CHR 0x5C) ''/'' path) of
        None \<Rightarrow> None
      | Some res \<Rightarrow> Some (groupdict res))"

text \<open>\<^verbatim>\<open>os.path.join\<close> of \<^verbatim>\<open>posixpath\<close> for two components.\<close>

definition path_join :: "string \<Rightarrow> string \<Rightarrow> string" where
  "path_join a b =
     (if b \<noteq> [] \<and> hd b = CHR ''/'' then b
      else if a = [] \<or> last a = CHR ''/'' then a @ b
      else a @ ''/'' @ b)"

text \<open>\<^verbatim>\<open>getmember(name)\<close> and \<^verbatim>\<open>getinfo(name)\<close>: the last member of that name.\<close>

definition find_member :: "member list \<Rightarrow> string \<Rightarrow> member option" where
  "find_member ms nm =
     (case filter (\<lambda>m. m_name m = nm) ms of [] \<Rightarrow> None | x # xs \<Rightarrow> Some (last (x # xs)))"

text \<open>
  Case 3 of \<^verbatim>\<open>scanPath\<close>, for the archive candidate \<open>f\<close> known under \<open>path\<close>
  (\<open>scan_archive\<close>), and its loop over the members (\<open>scan_members\<close>; \<open>all\<close> is the whole
  member list, \<open>added\<close> is \<^verbatim>\<open>addedNames\<close>). The result is the count or the exception, and
  the log set as the call leaves it. A nested call for a member without a handle finds
  neither a handle nor a file under the member's pseudo-path, returns no count, and
  adding that to \<^verbatim>\<open>res\<close> raises \<^verbatim>\<open>TypeError\<close>.
\<close>

fun scan_archive :: "LogSet \<Rightarrow> string \<Rightarrow> compiled \<Rightarrow> fobj \<Rightarrow> (error + int) \<times> LogSet"
and scan_members ::
  "LogSet \<Rightarrow> string \<Rightarrow> compiled \<Rightarrow> member list \<Rightarrow> member list \<Rightarrow> string list \<Rightarrow>
   LogSource \<Rightarrow> int \<Rightarrow> (error + LogSource \<times> int) \<times> LogSet" where
  "scan_archive ls path rex (File tm sz tarv zipv) =
     (case tarv of
        Some ms \<Rightarrow>
          (case scan_members ls path rex ms ms [] (LogSource_init ''TAR'' path) 0 of
             (Inl e, ls1) \<Rightarrow> (Inl e, ls1)
           | (Inr (src, res), ls1) \<Rightarrow>
               (Inr res, if logs src \<noteq> [] then ls1\<lparr>sources := sources ls1 @ [src]\<rparr> else ls1))
      | None \<Rightarrow>
          (case zipv of
             Some ms \<Rightarrow>
               (case scan_members ls path rex ms ms [] (LogSource_init ''ZIP'' path) 0 of
                  (Inl e, ls1) \<Rightarrow> (Inl e, ls1)
                | (Inr (src, res), ls1) \<Rightarrow>
                    (Inr res,
                     if logs src \<noteq> [] then ls1\<lparr>sources := sources ls1 @ [src]\<rparr> else ls1))
           | None \<Rightarrow> (Inr 0, ls)))"
| "scan_members ls path rex all [] added src res = (Inr (src, res), ls)"
| "scan_members ls path rex all (Member nm tm sz fo # ms) added src res =
     (let fullpath = path_join path nm in
      case checkPathFilter ls fullpath of
        Some flds \<Rightarrow>
          if nm \<notin> set added
          then (case find_member all nm of
                  None \<Rightarrow> (Inl (KeyError nm), ls)
                | Some info \<Rightarrow>
                    scan_members ls path rex all ms (nm # added)
                      (LogSource_add src nm (m_mtime info) (m_size info) flds) (res + 1))
          else scan_members ls path rex all ms added src res
      | None \<Rightarrow>
          if re_search rex fullpath \<noteq> None
          then (case fo of
                  None \<Rightarrow> (Inl TypeError, ls)
                | Some f \<Rightarrow>
                    (case scan_archive ls fullpath rex f of
                       (Inl e, ls1) \<Rightarrow> (Inl e, ls1)
                     | (Inr n, ls1) \<Rightarrow> scan_members ls1 path rex all ms added src (res + n)))
          else scan_members ls path rex all ms added src res)"

text \<open>
  \<^verbatim>\<open>scanPath(path, archivePathRex)\<close> for the path of a regular file \<open>f\<close> (cases 2 and 3);
  the result is \<open>None\<close> when no case applies and the function returns nothing.
\<close>

definition scan_file ::
  "LogSet \<Rightarrow> string \<Rightarrow> compiled \<Rightarrow> fobj \<Rightarrow> (error + int option) \<times> LogSet" where
  "scan_file ls path rex f =
     (case checkPathFilter ls path of
        Some flds \<Rightarrow>
          (case singleLogFiles ls of
             None \<Rightarrow> (Inl AttributeError, ls)
           | Some single \<Rightarrow>
               (Inr (Some 1),
                ls\<lparr>singleLogFiles :=
                     Some (LogSource_add single path (f_mtime f) (f_size f) flds)\<rparr>))
      | None \<Rightarrow>
          if re_search rex path \<noteq> None
          then (case scan_archive ls path rex f of
                  (Inl e, ls1) \<Rightarrow> (Inl e, ls1)
                | (Inr n, ls1) \<Rightarrow> (Inr (Some n), ls1))
          else (Inr None, ls))"

text \<open>The loops of case 1 over the files of a directory.\<close>

fun scan_dir_files ::
  "LogSet \<Rightarrow> compiled \<Rightarrow> string \<Rightarrow> (string \<times> fobj) list \<Rightarrow> LogSource \<Rightarrow> int \<Rightarrow>
   (error + LogSource \<times> int) \<times> LogSet" where
  "scan_dir_files ls rex dirpath [] src res = (Inr (src, res), ls)"
| "scan_dir_files ls rex dirpath ((filename, f) # fs) src res =
     (let fullpath = path_join dirpath filename in
      case checkPathFilter ls fullpath of
        Some flds \<Rightarrow>
          scan_dir_files ls rex dirpath fs
            (LogSource_add src fullpath (f_mtime f) (f_size f) flds) (res + 1)
      | None \<Rightarrow>
          if re_search rex filename \<noteq> None
          then (case scan_file ls fullpath rex f of
                  (Inl e, ls1) \<Rightarrow> (Inl e, ls1)
                | (Inr None, ls1) \<Rightarrow> (Inl TypeError, ls1)
                | (Inr (Some n), ls1) \<Rightarrow> scan_dir_files ls1 rex dirpath fs src (res + n))
          else scan_dir_files ls rex dirpath fs src res)"

fun scan_walk ::
  "LogSet \<Rightarrow> compiled \<Rightarrow> (string \<times> (string \<times> fobj) list) list \<Rightarrow> LogSource \<Rightarrow> int \<Rightarrow>
   (error + LogSource \<times> int) \<times> LogSet" where
  "scan_walk ls rex [] src res = (Inr (src, res), ls)"
| "scan_walk ls rex ((dirpath, files) # rest) src res =
     (case scan_dir_files ls rex dirpath files src res of
        (Inl e, ls1) \<Rightarrow> (Inl e, ls1)
      | (Inr (src1, res1), ls1) \<Rightarrow> scan_walk ls1 rex rest src1 res1)"

text \<open>
  \<^verbatim>\<open>scanPath(path, archivePathRex)\<close> as \<^verbatim>\<open>scanPaths\<close> calls it, without a handle; \<open>fs\<close> is the
  file system.
\<close>

definition scanPath ::
  "(string \<Rightarrow> fsentry option) \<Rightarrow> LogSet \<Rightarrow> string \<Rightarrow> compiled \<Rightarrow> (error + int option) \<times> LogSet" where
  "scanPath fs ls path rex =
     (case fs path of
        Some (FsDir walk) \<Rightarrow>
          (case scan_walk ls rex walk (LogSource_init ''DIR'' path) 0 of
             (Inl e, ls1) \<Rightarrow> (Inl e, ls1)
           | (Inr (src, res), ls1) \<Rightarrow>
               (Inr (Some res),
                if logs src \<noteq> [] then ls1\<lparr>sources := sources ls1 @ [src]\<rparr> else ls1))
      | Some (FsFile f) \<Rightarrow> scan_file ls path rex f
      | None \<Rightarrow> (Inr None, ls))"

text \<open>
  \<^verbatim>\<open>scanPath(path, archivePathRex, file)\<close> with an open handle, as the loop over the members
  of an archive calls it: case 3 at once.
\<close>

definition scanPath_handle :: "LogSet \<Rightarrow> string \<Rightarrow> compiled \<Rightarrow> fobj \<Rightarrow> (error + int) \<times> LogSet" where
  "scanPath_handle ls path rex f = scan_archive ls path rex f"

subsection \<open>Examples\<close>

text \<open>
  An environment whose hooks do nothing, and an event type with a two-line window: the
  text pattern \<^verbatim>\<open>ERROR.*continuation\<close>, the default timestamp pattern, no hooks.
\<close>

definition ex_env :: env where
  "ex_env = \<lparr>now = (2026, 1, 1, 0, 0, 0, 0), exec = (\<lambda>code r st. (None, st)),
              dict_str = (\<lambda>d. concat (map fst d))\<rparr>"

definition ex_type :: EventType where
  "ex_type =
     EventType_init None (Some (seqs [lits ''ERROR'', Star Dot, lits ''continuation''])) None 2
       False (Some ''ERR'') None None False None None None None False"

definition ex_event :: Event where
  "ex_event = Event_init ex_type ''app.log''"

text \<open>
  A store of three events of that type, inserted one after the other: the first and the
  third carry the same timestamp, the second an earlier one.
\<close>

definition ex_time :: datetime where
  "ex_time = (2024, 2, 1, 10, 0, 0, 0)"

definition ex_early :: datetime where
  "ex_early = (2024, 1, 31, 9, 0, 0, 0)"

definition ex_heap :: heap where
  "ex_heap = (\<lambda>r. setTimestamp ex_event (Some (if r = 1 then ex_early else ex_time)))"

definition ex_empty :: "heap \<times> EventSet" where
  "ex_empty = (ex_heap, EventSet_init [(''ERR'', ex_type)])"

definition ex_store1 :: "heap \<times> EventSet" where
  "ex_store1 = snd (add_event ex_empty 0)"

definition ex_store2 :: "heap \<times> EventSet" where
  "ex_store2 = snd (add_event ex_store1 1)"

definition ex_store :: "heap \<times> EventSet" where
  "ex_store = snd (add_event ex_store2 2)"

text \<open>Further example data.\<close>

text \<open>A text match whose named groups collide with a system and a virtual field.\<close>

definition ex_shadow :: rmatch where
  "ex_shadow = \<lparr>span = (0, 5), groupdict = [(''_raw'', PyStr ''other''), (''_flat'', PyStr ''f'')]\<rparr>"

text \<open>
  An event type whose timestamp pattern reads \<^verbatim>\<open>dd/mm/yy hh:mm\<close> with the month as two
  digits or as a capitalised name of three letters:
  \<^verbatim>\<open>^(?P<_D>\d\d)/(?P<_M>\d\d|[A-Z][a-z][a-z])/(?P<_Y>\d\d) (?P<_h>\d\d):(?P<_m>\d\d)\<close>.
\<close>

definition ex_ts_rx :: rx where
  "ex_ts_rx =
     seqs [Bol, Grp ''_D'' (rep 2 digit), Lit CHR ''/'',
           Grp ''_M'' (Alt (rep 2 digit)
                          (Seq (Cls False [(CHR ''A'', CHR ''Z'')])
                               (rep 2 (Cls False [(CHR ''a'', CHR ''z'')])))),
           Lit CHR ''/'', Grp ''_Y'' (rep 2 digit), Lit CHR '' '',
           Grp ''_h'' (rep 2 digit), Lit CHR '':'', Grp ''_m'' (rep 2 digit)]"

definition ex_ts_type :: EventType where
  "ex_ts_type =
     EventType_init None None (Some ex_ts_rx) 1 False (Some ''TS'') None None False
       None None None None False"

definition ex_ts_event :: Event where
  "ex_ts_event = Event_init ex_ts_type ''app.log''"

text \<open>
  A store that knows the event types \<^verbatim>\<open>LOGIN\<close> and \<^verbatim>\<open>ERR\<close> and holds no event yet; the
  event under reference 0 has a user field \<^verbatim>\<open>code\<close> and no field \<^verbatim>\<open>account\<close>.
\<close>

definition ex_login :: EventType where
  "ex_login =
     EventType_init None (Some (lits ''login'')) None 1 False (Some ''LOGIN'') None None False
       None None None None False"

definition ex_tstore :: "heap \<times> EventSet" where
  "ex_tstore =
     (ex_heap(0 := snd (set_field (ex_heap 0) ''code'' (PyStr ''7''))),
      EventSet_init [(''LOGIN'', ex_login), (''ERR'', ex_type)])"




section \<open>Properties\<close>

subsection \<open>Fields of an event\<close>

lemma dict_get_has: "map_of d k = Some v \<Longrightarrow> dict_get d k = Inr v \<and> dict_has d k"
  by (simp add: dict_get_def dict_has_def)

text \<open>
  C8. A name that is a system field is refused by \<^verbatim>\<open>set_field\<close> and by \<^verbatim>\<open>add_field\<close>: both
  raise \<^verbatim>\<open>RuntimeError\<close> and leave the event, hence both field maps, as it was. Whatever
  the name, neither setter changes the system fields.
\<close>

theorem setters_keep_system_fields:
  "(dict_has (sfields ev) nm \<longrightarrow>
      (\<exists>msg. fst (set_field ev nm v) = Some (RuntimeError msg)) \<and>
      sfields (snd (set_field ev nm v)) = sfields ev \<and>
      ufields (snd (set_field ev nm v)) = ufields ev \<and>
      (\<exists>msg. fst (add_field ev nm v) = Some (RuntimeError msg)) \<and>
      sfields (snd (add_field ev nm v)) = sfields ev \<and>
      ufields (snd (add_field ev nm v)) = ufields ev) \<and>
   sfields (snd (set_field ev nm' v')) = sfields ev \<and>
   sfields (snd (add_field ev nm' v')) = sfields ev"
  by (simp add: set_field_def add_field_def)

lemma ex_event_has_name: "dict_has (sfields ex_event) ''_name''"
  by code_simp

theorem setters_keep_system_fields_witness:
  "dict_has (sfields ex_event) ''_name'' \<and>
   fst (set_field ex_event ''_name'' (PyStr ''x'')) =
     Some (RuntimeError ''Overwriting _name system field not allowed'') \<and>
   snd (set_field ex_event ''_name'' (PyStr ''x'')) = ex_event \<and>
   fst (add_field ex_event ''_name'' (PyStr ''x'')) =
     Some (RuntimeError ''Field _name already exists'') \<and>
   sfields (snd (add_field ex_event ''_name'' (PyStr ''x''))) = sfields ex_event \<and>
   ufields (snd (add_field ex_event ''_name'' (PyStr ''x''))) = ufields ex_event"
  using setters_keep_system_fields [of ex_event "''_name''" "PyStr ''x''"] ex_event_has_name
  by (simp add: set_field_def add_field_def)

text \<open>
  C10. A user field is read before the system fields and the virtual fields: when the
  user fields hold a value under a name, \<^verbatim>\<open>get_field\<close> returns that value, whatever the
  system fields hold and also for the name of a virtual field, and only for a name that
  is no user field does it return the system value. \<^verbatim>\<open>has_field\<close> is true exactly for the
  names of the virtual fields, of the user fields and of the system fields, so its
  answer does not depend on the order of its three tests. \<^verbatim>\<open>parseText\<close> returns normally
  for a given match and installs its named groups as the user fields, leaving the system
  fields alone, so a group called \<^verbatim>\<open>_raw\<close> or \<^verbatim>\<open>_flat\<close> is what every later \<^verbatim>\<open>get_field\<close>
  returns.
\<close>

theorem user_field_shadows:
  "(map_of (ufields ev) nm = Some v \<longrightarrow> get_field dstr ev nm = Inr v) \<and>
   (map_of (ufields ev) nm = None \<longrightarrow> map_of (sfields ev) nm = Some w \<longrightarrow>
      get_field dstr ev nm = Inr w) \<and>
   (has_field ev nm \<longleftrightarrow>
      nm \<in> set virtual_fields \<or> map_of (ufields ev) nm \<noteq> None \<or>
      map_of (sfields ev) nm \<noteq> None) \<and>
   fst (parseText ev (Some m)) = None \<and>
   ufields (snd (parseText ev (Some m))) = groupdict m \<and>
   sfields (snd (parseText ev (Some m))) = sfields ev \<and>
   (map_of (groupdict m) nm = Some v \<longrightarrow>
      get_field dstr (snd (parseText ev (Some m))) nm = Inr v \<and>
      has_field (snd (parseText ev (Some m))) nm)"
  by (simp add: get_field_def has_field_def dict_get_has parseText_def dict_has_def
      dict_get_def)

lemma ex_raw_event:
  "get_field dstr (setRaw ex_event ''ERROR'') ''_raw'' = Inr (PyStr ''ERROR'') \<and>
   get_field dstr (setRaw ex_event ''ERROR'') ''_flat'' = Inr (PyStr ''ERROR'')"
  by code_simp

lemma ex_has_field:
  "\<not> has_field ex_event ''foo'' \<and>
   has_field (snd (set_field ex_event ''foo'' (PyStr ''1''))) ''foo'' \<and>
   has_field ex_event ''_flat'' \<and> has_field ex_event ''_name'' \<and>
   map_of (ufields ex_event) ''foo'' = None \<and> map_of (sfields ex_event) ''foo'' = None \<and>
   map_of (ufields ex_event) ''_name'' = None \<and>
   map_of (sfields ex_event) ''_name'' = Some (PyStr ''ERR'') \<and>
   get_field dstr ex_event ''_name'' = Inr (PyStr ''ERR'') \<and>
   ''foo'' \<notin> set virtual_fields"
  by code_simp

theorem user_field_shadows_witness:
  "map_of (groupdict ex_shadow) ''_raw'' = Some (PyStr ''other'') \<and>
   get_field (dict_str ex_env) (setRaw ex_event ''ERROR'') ''_raw'' = Inr (PyStr ''ERROR'') \<and>
   get_field (dict_str ex_env) (snd (parseText (setRaw ex_event ''ERROR'') (Some ex_shadow))) ''_raw'' =
     Inr (PyStr ''other'') \<and>
   map_of (groupdict ex_shadow) ''_flat'' = Some (PyStr ''f'') \<and>
   get_field (dict_str ex_env) (setRaw ex_event ''ERROR'') ''_flat'' = Inr (PyStr ''ERROR'') \<and>
   get_field (dict_str ex_env) (snd (parseText (setRaw ex_event ''ERROR'') (Some ex_shadow))) ''_flat'' =
     Inr (PyStr ''f'') \<and>
   has_field (snd (parseText (setRaw ex_event ''ERROR'') (Some ex_shadow))) ''_raw'' \<and>
   map_of (ufields ex_event) ''_name'' = None \<and>
   map_of (sfields ex_event) ''_name'' = Some (PyStr ''ERR'') \<and>
   get_field (dict_str ex_env) ex_event ''_name'' = Inr (PyStr ''ERR'') \<and>
   \<not> has_field ex_event ''foo'' \<and>
   has_field (snd (set_field ex_event ''foo'' (PyStr ''1''))) ''foo'' \<and>
   has_field ex_event ''_flat''"
  using user_field_shadows [of "setRaw ex_event ''ERROR''" "''_raw''" "PyStr ''other''" "dict_str ex_env"
      "PyStr ''ERROR''" ex_shadow]
    user_field_shadows [of "setRaw ex_event ''ERROR''" "''_flat''" "PyStr ''f''" "dict_str ex_env"
      "PyStr ''ERROR''" ex_shadow]
    ex_raw_event [of "dict_str ex_env"] ex_has_field [of "dict_str ex_env"]
  by (simp add: ex_shadow_def)

subsection \<open>The event store\<close>

lemma pair_less_iff:
  "((a::'a::linorder), (b::'b::linorder)) < (c, d) \<longleftrightarrow> a < c \<or> (a = c \<and> b < d)"
  by (auto simp: less_prod_def)

lemma Event_cmp_key:
  "ev_key h y \<noteq> ev_key h x \<Longrightarrow>
   Event_cmp (h y) (h x) = Inr (if ev_key h y < ev_key h x then - 1 else 1)"
  by (auto simp: Event_cmp_def ev_key_def pair_less_iff)

lemma py_insort_eq:
  "ev_key h x \<notin> ev_key h ` set ys \<Longrightarrow> py_insort h x ys = Inr (insort_key (ev_key h) x ys)"
proof (induction ys)
  case Nil
  then show ?case by simp
next
  case (Cons y ys)
  then have ne: "ev_key h y \<noteq> ev_key h x" and rest: "ev_key h x \<notin> ev_key h ` set ys"
    by auto
  show ?case
    using Cons.IH[OF rest] ne by (auto simp: Event_cmp_key)
qed

lemma py_sort_eq:
  "distinct (map (ev_key h) xs) \<Longrightarrow> py_sort h xs = Inr (sort_key (ev_key h) xs)"
proof (induction xs)
  case Nil
  then show ?case by simp
next
  case (Cons x xs)
  then have "ev_key h x \<notin> ev_key h ` set (sort_key (ev_key h) xs)" by simp
  from py_insort_eq[OF this] Cons show ?case by simp
qed

lemma distinct_map_sort_key: "distinct (map f (sort_key f xs)) = distinct (map f xs)"
  by (induction xs) (simp_all add: distinct_insort_key)

lemma sort_key_unique:
  assumes "distinct (map f ys)" and "set ys = set xs" and "sorted (map f ys)"
    and "distinct (map f xs)"
  shows "sort_key f xs = ys"
proof -
  have inj: "inj_on f (set xs \<union> set ys)"
    using assms(2,4) by (simp add: distinct_map)
  have "map f (sort_key f xs) = map f ys"
  proof (rule sorted_distinct_set_unique)
    show "sorted (map f (sort_key f xs))" by simp
    show "distinct (map f (sort_key f xs))" using assms(4) by (simp add: distinct_map_sort_key)
    show "sorted (map f ys)" by fact
    show "distinct (map f ys)" by fact
    show "set (map f (sort_key f xs)) = set (map f ys)" using assms(2) by simp
  qed
  moreover have "inj_on f (set (sort_key f xs) \<union> set ys)" using inj by simp
  ultimately show ?thesis by (rule map_inj_on)
qed

lemma sort_each_eq:
  "distinct (map (ev_key h) (concat (map snd d))) \<Longrightarrow>
   sort_each h acc d sq =
     (None, acc @ map (\<lambda>(k, l). (k, sort_key (ev_key h) l)) d,
      sq @ concat (map (\<lambda>(k, l). sort_key (ev_key h) l) d))"
proof (induction d arbitrary: acc sq)
  case Nil
  then show ?case by simp
next
  case (Cons kl d)
  obtain k l where kl: "kl = (k, l)" by (cases kl)
  from Cons.prems kl have dl: "distinct (map (ev_key h) l)"
    and dd: "distinct (map (ev_key h) (concat (map snd d)))" by auto
  show ?case
    using Cons.IH[OF dd] by (simp add: kl py_sort_eq[OF dl])
qed

lemma setSeqnum_fields [simp]:
  "seqnum (setSeqnum ev i) = i" "timestamp (setSeqnum ev i) = timestamp ev"
  "eventType (setSeqnum ev i) = eventType ev" "ufields (setSeqnum ev i) = ufields ev"
  by (simp_all add: setSeqnum_def)

lemma renumber_other: "r \<notin> set rs \<Longrightarrow> renumber h i rs r = h r"
  by (induction rs arbitrary: h i) auto

lemma renumber_timestamp: "timestamp (renumber h i rs r) = timestamp (h r)"
  by (induction rs arbitrary: h i) auto

lemma renumber_nth:
  "distinct rs \<Longrightarrow> k < length rs \<Longrightarrow> seqnum (renumber h i rs (rs ! k)) = i + int k"
proof (induction rs arbitrary: h i k)
  case Nil
  then show ?case by simp
next
  case (Cons r rs)
  show ?case
  proof (cases k)
    case 0
    with Cons.prems show ?thesis by (simp add: renumber_other)
  next
    case (Suc k')
    with Cons.prems have "seqnum (renumber (h(r := setSeqnum (h r) i)) (i + 1) rs (rs ! k')) = i + 1 + int k'"
      by (intro Cons.IH) auto
    with Suc show ?thesis by simp
  qed
qed


lemma store_inv_keys: "store_inv h es \<Longrightarrow> distinct (map (ev_key h) (all_events es))"
proof -
  assume "store_inv h es"
  then have d: "distinct (map (\<lambda>r. seqnum (h r)) (all_events es))"
    by (simp add: store_inv_def)
  have "map (\<lambda>r. seqnum (h r)) (all_events es) = map snd (map (ev_key h) (all_events es))"
    by (simp add: ev_key_def)
  with d show ?thesis by (metis distinct_map)
qed

lemma set_concat_sorted:
  "set (concat (map (\<lambda>(k, l). sort_key f l) d)) = set (concat (map snd d))"
  by (induction d) auto

lemma distinct_concat_sorted:
  "distinct (map f (concat (map snd d))) \<Longrightarrow>
   distinct (map f (concat (map (\<lambda>(k, l). sort_key f l) d)))"
proof (induction d)
  case Nil
  then show ?case by simp
next
  case (Cons kl d)
  obtain k l where kl: "kl = (k, l)" by (cases kl)
  from Cons.prems kl have a: "distinct (map f l)"
    and b: "distinct (map f (concat (map snd d)))"
    and c: "f ` set l \<inter> f ` set (concat (map snd d)) = {}"
    by simp_all
  from c have c': "f ` set l \<inter> f ` set (concat (map (\<lambda>(k, l). sort_key f l) d)) = {}"
    by (simp only: set_concat_sorted)
  show ?case
    using Cons.IH[OF b] a c' by (simp add: kl distinct_map_sort_key)
qed

lemma sortEvents_sorted:
  assumes "distinct (map (ev_key h) (all_events es))"
  shows "sortEvents (h, es) =
           (None,
            (renumber h 0 (sort_key (ev_key h) (all_events es)),
             es\<lparr>bytype := map (\<lambda>(k, l). (k, sort_key (ev_key h) l)) (bytype es),
                sequence := sort_key (ev_key h) (all_events es)\<rparr>),
            sort_key (ev_key h) (all_events es))"
proof -
  let ?f = "ev_key h"
  let ?sq = "concat (map (\<lambda>(k, l). sort_key ?f l) (bytype es))"
  have set_sq: "set ?sq = set (all_events es)"
    by (auto simp: all_events_def)
  have len: "map length (map (\<lambda>(k, l). sort_key ?f l) (bytype es)) = map length (map snd (bytype es))"
    by (induction "bytype es") auto
  have dsq: "distinct (map ?f ?sq)"
    using assms by (simp add: all_events_def distinct_concat_sorted)
  have uniq: "sort_key ?f ?sq = sort_key ?f (all_events es)"
  proof (rule sort_key_unique)
    show "distinct (map ?f (sort_key ?f (all_events es)))"
      using assms by (simp add: distinct_map_sort_key)
    show "set (sort_key ?f (all_events es)) = set ?sq" using set_sq by simp
    show "sorted (map ?f (sort_key ?f (all_events es)))" by simp
    show "distinct (map ?f ?sq)" by (rule dsq)
  qed
  have each: "sort_each h [] (bytype es) [] =
      (None, map (\<lambda>(k, l). (k, sort_key ?f l)) (bytype es), ?sq)"
    using sort_each_eq[of h "bytype es" "[]" "[]"] assms by (simp add: all_events_def)
  show ?thesis
    by (simp add: sortEvents_def each py_sort_eq[OF dsq] uniq)
qed


lemma set_dict_append:
  "map_of d k = Some l \<Longrightarrow>
   set (concat (map snd (dict_set d k (l @ [r])))) = insert r (set (concat (map snd d)))"
proof (induction d)
  case Nil
  then show ?case by simp
next
  case (Cons kv d)
  obtain k' v' where kv: "kv = (k', v')" by (cases kv)
  show ?case
  proof (cases "k' = k")
    case True
    with Cons.prems kv have "v' = l" by simp
    with True kv show ?thesis by auto
  next
    case False
    with Cons.prems kv have "map_of d k = Some l" by simp
    from Cons.IH[OF this] False kv show ?thesis by auto
  qed
qed

lemma distinct_map_dict_append:
  "map_of d k = Some l \<Longrightarrow>
   distinct (map g (concat (map snd (dict_set d k (l @ [r]))))) =
     (distinct (map g (concat (map snd d))) \<and> g r \<notin> g ` set (concat (map snd d)))"
proof (induction d)
  case Nil
  then show ?case by simp
next
  case (Cons kv d)
  obtain k' v' where kv: "kv = (k', v')" by (cases kv)
  show ?case
  proof (cases "k' = k")
    case True
    with Cons.prems kv have "v' = l" by simp
    with True kv show ?thesis by auto
  next
    case False
    with Cons.prems kv have m: "map_of d k = Some l" by simp
    define A where "A = concat (map snd d)"
    define B where "B = concat (map snd (dict_set d k (l @ [r])))"
    have ih: "distinct (map g B) = (distinct (map g A) \<and> g r \<notin> g ` set A)"
      using Cons.IH[OF m] by (simp add: A_def B_def)
    have sb: "set B = insert r (set A)"
      using set_dict_append[OF m] by (simp add: A_def B_def)
    have "distinct (map g (v' @ B)) = (distinct (map g (v' @ A)) \<and> g r \<notin> g ` set (v' @ A))"
      using ih sb by auto
    moreover have "concat (map snd (dict_set (kv # d) k (l @ [r]))) = v' @ B"
      using False kv by (simp add: B_def)
    moreover have "concat (map snd (kv # d)) = v' @ A"
      using kv by (simp add: A_def)
    ultimately show ?thesis by simp
  qed
qed

lemma add_event_ok:
  assumes "map_of (bytype es) (name (eventType (h r))) = Some l"
  shows "add_event (h, es) r =
           (None, (h(r := setSeqnum (h r) (curSeqnum es)),
                   es\<lparr>curSeqnum := curSeqnum es + 1,
                      bytype := dict_set (bytype es) (name (eventType (h r))) (l @ [r]),
                      sequence := sequence es @ [r]\<rparr>))"
  using assms by (simp add: add_event_def dict_get_def Let_def)

lemma add_event_seqnum:
  "add_event (h, es) r = (e, (h1, es1)) \<Longrightarrow>
   seqnum (h1 r) = curSeqnum es \<and> curSeqnum es1 = curSeqnum es + 1 \<and>
   (\<forall>x. x \<noteq> r \<longrightarrow> h1 x = h x)"
  by (auto simp: add_event_def dict_get_def Let_def split: option.splits)

lemma add_event_None:
  "add_event (h, es) r = (None, (h1, es1)) \<Longrightarrow>
   \<exists>l. map_of (bytype es) (name (eventType (h r))) = Some l"
  by (auto simp: add_event_def dict_get_def Let_def split: option.splits)

lemma dict_set_empty_lists:
  "\<forall>kv \<in> set d. snd kv = [] \<Longrightarrow> \<forall>kv \<in> set (dict_set d k []). snd kv = ([]::ref list)"
  by (induction d) (fastforce split: if_splits)+

lemma fold_dict_set_empty_lists:
  "\<forall>kv \<in> set d. snd kv = [] \<Longrightarrow>
   \<forall>kv \<in> set (fold (\<lambda>k d. dict_set d k []) ks d). snd kv = ([]::ref list)"
proof (induction ks arbitrary: d)
  case Nil
  then show ?case by simp
next
  case (Cons k ks)
  from Cons.IH[OF dict_set_empty_lists[OF Cons.prems]] show ?case by simp
qed

lemma store_inv_init: "store_inv h (EventSet_init evts)"
proof -
  have "\<forall>kv \<in> set (bytype (EventSet_init evts)). snd kv = []"
    using fold_dict_set_empty_lists[of "[]" "map fst evts"] by (simp add: EventSet_init_def)
  then have "all_events (EventSet_init evts) = []"
    by (simp add: all_events_def)
  then show ?thesis by (simp add: store_inv_def)
qed

lemma store_inv_add_event:
  assumes inv: "store_inv h es" and fresh: "r \<notin> set (all_events es)"
    and add: "add_event (h, es) r = (None, (h1, es1))"
  shows "store_inv h1 es1"
proof -
  from add_event_None[OF add] obtain l where
    l: "map_of (bytype es) (name (eventType (h r))) = Some l" by blast
  from add add_event_ok[of es h r l, OF l] have h1: "h1 = h(r := setSeqnum (h r) (curSeqnum es))"
    and es1: "es1 = es\<lparr>curSeqnum := curSeqnum es + 1,
                      bytype := dict_set (bytype es) (name (eventType (h r))) (l @ [r]),
                      sequence := sequence es @ [r]\<rparr>"
    by simp_all
  define old where "old = concat (map snd (bytype es))"
  define new where
    "new = concat (map snd (dict_set (bytype es) (name (eventType (h r))) (l @ [r])))"
  from inv have d: "distinct old"
    and ds: "distinct (map (\<lambda>x. seqnum (h x)) old)"
    and lt: "\<forall>x \<in> set old. seqnum (h x) < curSeqnum es"
    by (simp_all add: store_inv_def all_events_def list_all_iff old_def)
  from fresh have fr: "r \<notin> set old" by (simp add: all_events_def old_def)
  have same: "\<And>x. x \<in> set old \<Longrightarrow> seqnum (h1 x) = seqnum (h x)"
    using fr by (auto simp: h1)
  have cur: "seqnum (h1 r) = curSeqnum es" by (simp add: h1)
  have sn: "set new = insert r (set old)"
    unfolding new_def old_def by (rule set_dict_append[OF l])
  have dn: "distinct (map g new) = (distinct (map g old) \<and> g r \<notin> g ` set old)" for g :: "ref \<Rightarrow> int"
    unfolding new_def old_def by (rule distinct_map_dict_append[OF l])
  have dn': "distinct (map id new) = (distinct (map id old) \<and> id r \<notin> id ` set old)"
    unfolding new_def old_def by (rule distinct_map_dict_append[OF l])
  have 1: "distinct new"
    using dn' d fr by simp
  have "map (\<lambda>x. seqnum (h1 x)) old = map (\<lambda>x. seqnum (h x)) old"
    using same by (intro map_cong) auto
  with ds have ds1: "distinct (map (\<lambda>x. seqnum (h1 x)) old)" by (simp only:)
  have "seqnum (h1 r) \<notin> (\<lambda>x. seqnum (h1 x)) ` set old"
    using lt same cur by force
  with ds1 have 2: "distinct (map (\<lambda>x. seqnum (h1 x)) new)"
    using dn[of "\<lambda>x. seqnum (h1 x)"] by simp
  have 3: "\<forall>x \<in> set new. seqnum (h1 x) < curSeqnum es + 1"
    unfolding sn using lt same cur by force
  have "all_events es1 = new"
    by (simp add: all_events_def es1 new_def)
  moreover have "curSeqnum es1 = curSeqnum es + 1" by (simp add: es1)
  ultimately show ?thesis
    using 1 2 3 by (simp add: store_inv_def list_all_iff)
qed


lemma sorted_key_index:
  assumes "sorted (map f sq)" and "i < length sq" and "j < length sq"
    and "f (sq ! i) < f (sq ! j)"
  shows "i < j"
proof (rule ccontr)
  assume "\<not> i < j"
  then have "j \<le> i" by simp
  with assms(1,2) have "map f sq ! j \<le> map f sq ! i"
    by (intro sorted_nth_mono) simp_all
  with assms(2,3,4) show False by simp
qed

lemma sortEvents_order:
  assumes keys: "distinct (map (ev_key h) (all_events es))"
  defines "sq \<equiv> sort_key (ev_key h) (all_events es)"
  shows "set sq = set (all_events es)" and "distinct sq" and "sorted (map (ev_key h) sq)"
    and "\<forall>i<length sq. seqnum (renumber h 0 sq (sq ! i)) = int i"
    and "\<forall>a\<in>set sq. \<forall>b\<in>set sq. ev_key h a < ev_key h b \<longrightarrow>
           seqnum (renumber h 0 sq a) < seqnum (renumber h 0 sq b)"
proof -
  show s: "set sq = set (all_events es)" by (simp add: sq_def)
  from keys have "distinct (all_events es)" by (simp add: distinct_map)
  then show d: "distinct sq" by (simp add: sq_def)
  show so: "sorted (map (ev_key h) sq)" by (simp add: sq_def)
  show n: "\<forall>i<length sq. seqnum (renumber h 0 sq (sq ! i)) = int i"
    using renumber_nth[OF d, of _ h 0] by simp
  show "\<forall>a\<in>set sq. \<forall>b\<in>set sq. ev_key h a < ev_key h b \<longrightarrow>
           seqnum (renumber h 0 sq a) < seqnum (renumber h 0 sq b)"
  proof (intro ballI impI)
    fix a b assume "a \<in> set sq" "b \<in> set sq" and lt: "ev_key h a < ev_key h b"
    then obtain i j where i: "i < length sq" "sq ! i = a" and j: "j < length sq" "sq ! j = b"
      by (auto simp: in_set_conv_nth)
    from sorted_key_index[OF so i(1) j(1)] lt i(2) j(2) have "i < j" by simp
    with n i j show "seqnum (renumber h 0 sq a) < seqnum (renumber h 0 sq b)" by auto
  qed
qed

text \<open>
  C4. An insertion gives the event the store's next sequence number and advances that
  number by one, so of two events inserted one after the other the second gets the
  number of the first plus one. In a store whose events have pairwise different keys
  (timestamp, sequence number), as every store filled by insertions has, \<^verbatim>\<open>sortEvents\<close>
  raises nothing, sorts every list of a type and the flat sequence by that key in
  ascending order, and numbers the events of the new sequence 0, 1, ... in that order;
  timestamps are untouched, and of two events with equal timestamps the one with the
  smaller old number gets the smaller new number.
\<close>

theorem sequence_numbers_insert_and_sort:
  "(add_event (h, es) r = (e, (h1, es1)) \<longrightarrow>
      seqnum (h1 r) = curSeqnum es \<and> curSeqnum es1 = curSeqnum es + 1) \<and>
   (add_event (h, es) r1 = (None, st1) \<longrightarrow> add_event st1 r2 = (None, (h2, es2)) \<longrightarrow> r1 \<noteq> r2 \<longrightarrow>
      seqnum (h2 r2) = seqnum (h2 r1) + 1) \<and>
   (distinct (map (ev_key h) (all_events es)) \<longrightarrow>
      (\<exists>h' es' sq.
         sortEvents (h, es) = (None, (h', es'), sq) \<and>
         sq = sort_key (ev_key h) (all_events es) \<and>
         sequence es' = sq \<and>
         bytype es' = map (\<lambda>(k, l). (k, sort_key (ev_key h) l)) (bytype es) \<and>
         set sq = set (all_events es) \<and> distinct sq \<and>
         sorted (map (ev_key h) sq) \<and>
         (\<forall>i<length sq. seqnum (h' (sq ! i)) = int i) \<and>
         (\<forall>x. timestamp (h' x) = timestamp (h x)) \<and>
         (\<forall>a\<in>set sq. \<forall>b\<in>set sq.
            timestamp (h a) = timestamp (h b) \<longrightarrow> seqnum (h a) < seqnum (h b) \<longrightarrow>
            seqnum (h' a) < seqnum (h' b))))"
proof (intro conjI impI)
  assume "add_event (h, es) r = (e, (h1, es1))"
  from add_event_seqnum[OF this]
  show "seqnum (h1 r) = curSeqnum es" and "curSeqnum es1 = curSeqnum es + 1" by simp_all
next
  assume a1: "add_event (h, es) r1 = (None, st1)"
    and a2: "add_event st1 r2 = (None, (h2, es2))" and ne: "r1 \<noteq> r2"
  obtain ha ea where st1: "st1 = (ha, ea)" by (cases st1)
  from add_event_seqnum[OF a1[unfolded st1]]
  have 1: "seqnum (ha r1) = curSeqnum es" "curSeqnum ea = curSeqnum es + 1" by simp_all
  from add_event_seqnum[OF a2[unfolded st1]] ne
  have 2: "seqnum (h2 r2) = curSeqnum ea" "h2 r1 = ha r1" by simp_all
  from 1 2 show "seqnum (h2 r2) = seqnum (h2 r1) + 1" by simp
next
  assume keys: "distinct (map (ev_key h) (all_events es))"
  let ?sq = "sort_key (ev_key h) (all_events es)"
  let ?h = "renumber h 0 ?sq"
  let ?es = "es\<lparr>bytype := map (\<lambda>(k, l). (k, sort_key (ev_key h) l)) (bytype es),
                sequence := ?sq\<rparr>"
  note ord = sortEvents_order[OF keys]
  have rel: "\<forall>a\<in>set ?sq. \<forall>b\<in>set ?sq.
      timestamp (h a) = timestamp (h b) \<longrightarrow> seqnum (h a) < seqnum (h b) \<longrightarrow>
      seqnum (?h a) < seqnum (?h b)"
  proof (intro ballI impI)
    fix a b assume ab: "a \<in> set ?sq" "b \<in> set ?sq"
      and "timestamp (h a) = timestamp (h b)" "seqnum (h a) < seqnum (h b)"
    then have "ev_key h a < ev_key h b" by (simp add: ev_key_def pair_less_iff)
    with ord(5) ab show "seqnum (?h a) < seqnum (?h b)" by blast
  qed
  have "sortEvents (h, es) = (None, (?h, ?es), ?sq) \<and> ?sq = ?sq \<and> sequence ?es = ?sq \<and>
        bytype ?es = map (\<lambda>(k, l). (k, sort_key (ev_key h) l)) (bytype es) \<and>
        set ?sq = set (all_events es) \<and> distinct ?sq \<and> sorted (map (ev_key h) ?sq) \<and>
        (\<forall>i<length ?sq. seqnum (?h (?sq ! i)) = int i) \<and>
        (\<forall>x. timestamp (?h x) = timestamp (h x)) \<and>
        (\<forall>a\<in>set ?sq. \<forall>b\<in>set ?sq.
            timestamp (h a) = timestamp (h b) \<longrightarrow> seqnum (h a) < seqnum (h b) \<longrightarrow>
            seqnum (?h a) < seqnum (?h b))"
    using sortEvents_sorted[OF keys] ord(1-4) rel by (simp add: renumber_timestamp)
  then show "\<exists>h' es' sq.
         sortEvents (h, es) = (None, (h', es'), sq) \<and>
         sq = sort_key (ev_key h) (all_events es) \<and>
         sequence es' = sq \<and>
         bytype es' = map (\<lambda>(k, l). (k, sort_key (ev_key h) l)) (bytype es) \<and>
         set sq = set (all_events es) \<and> distinct sq \<and>
         sorted (map (ev_key h) sq) \<and>
         (\<forall>i<length sq. seqnum (h' (sq ! i)) = int i) \<and>
         (\<forall>x. timestamp (h' x) = timestamp (h x)) \<and>
         (\<forall>a\<in>set sq. \<forall>b\<in>set sq.
            timestamp (h a) = timestamp (h b) \<longrightarrow> seqnum (h a) < seqnum (h b) \<longrightarrow>
            seqnum (h' a) < seqnum (h' b))"
    by blast
qed

lemma setTimestamp_fields [simp]:
  "timestamp (setTimestamp ev (Some t)) = t" "seqnum (setTimestamp ev ts) = seqnum ev"
  "eventType (setTimestamp ev ts) = eventType ev" "ufields (setTimestamp ev ts) = ufields ev"
  by (simp_all add: setTimestamp_def Let_def)

lemma pair_le_iff:
  "((a::'a::linorder), (b::'b::linorder)) \<le> (c, d) \<longleftrightarrow> a < c \<or> (a = c \<and> b \<le> d)"
  by (auto simp: less_eq_prod_def)

lemma ex_type_name: "name ex_type = ''ERR''"
  by (simp add: ex_type_def EventType_init_def getValid_def nonempty_def Let_def)

lemma ex_heap_cell [simp]:
  "eventType (ex_heap r) = ex_type"
  "timestamp (ex_heap r) = (if r = Suc 0 then ex_early else ex_time)"
  by (simp_all add: ex_heap_def ex_event_def Event_init_def Let_def)

lemma ex_store1_eq:
  "add_event ex_empty 0 =
     (None, (ex_heap(0 := setSeqnum (ex_heap 0) 0),
             \<lparr>bytype = [(''ERR'', [0])], sequence = [0], curSeqnum = 1\<rparr>))"
  by (simp add: ex_empty_def EventSet_init_def add_event_def dict_get_def ex_type_name Let_def)

lemma ex_store1_nf:
  "ex_store1 = (ex_heap(0 := setSeqnum (ex_heap 0) 0),
             \<lparr>bytype = [(''ERR'', [0])], sequence = [0], curSeqnum = 1\<rparr>)"
  by (simp add: ex_store1_def ex_store1_eq)

lemma ex_store2_eq:
  "add_event ex_store1 (Suc 0) =
     (None, (ex_heap(0 := setSeqnum (ex_heap 0) 0, Suc 0 := setSeqnum (ex_heap (Suc 0)) 1),
             \<lparr>bytype = [(''ERR'', [0, Suc 0])], sequence = [0, Suc 0], curSeqnum = 2\<rparr>))"
  by (simp add: ex_store1_nf add_event_def dict_get_def ex_type_name Let_def)

lemma ex_store2_nf:
  "ex_store2 = (ex_heap(0 := setSeqnum (ex_heap 0) 0, Suc 0 := setSeqnum (ex_heap (Suc 0)) 1),
             \<lparr>bytype = [(''ERR'', [0, Suc 0])], sequence = [0, Suc 0], curSeqnum = 2\<rparr>)"
  using ex_store2_eq by (simp add: ex_store2_def)

lemma ex_store_eq:
  "add_event ex_store2 2 =
     (None, (ex_heap(0 := setSeqnum (ex_heap 0) 0, Suc 0 := setSeqnum (ex_heap (Suc 0)) 1,
                     2 := setSeqnum (ex_heap 2) 2),
             \<lparr>bytype = [(''ERR'', [0, Suc 0, 2])], sequence = [0, Suc 0, 2], curSeqnum = 3\<rparr>))"
  by (simp add: ex_store2_nf add_event_def dict_get_def ex_type_name Let_def)

lemma ex_store_nf:
  "ex_store = (ex_heap(0 := setSeqnum (ex_heap 0) 0, Suc 0 := setSeqnum (ex_heap (Suc 0)) 1,
                     2 := setSeqnum (ex_heap 2) 2),
             \<lparr>bytype = [(''ERR'', [0, Suc 0, 2])], sequence = [0, Suc 0, 2], curSeqnum = 3\<rparr>)"
  by (simp add: ex_store_def ex_store_eq)

lemma ex_store_cells:
  "ev_key (fst ex_store) 0 = (ex_time, 0)" "ev_key (fst ex_store) (Suc 0) = (ex_early, 1)"
  "ev_key (fst ex_store) 2 = (ex_time, 2)" "all_events (snd ex_store) = [0, Suc 0, 2]"
  by (simp_all add: ex_store_nf ev_key_def all_events_def)

lemma ex_early_less: "ex_early < ex_time" "ex_early \<noteq> ex_time" "\<not> ex_time < ex_early"
  "\<not> ex_time \<le> ex_early" "ex_early \<le> ex_time" "ex_time \<noteq> ex_early"
  by (simp_all add: ex_early_def ex_time_def less_prod_def less_eq_prod_def)

lemma ex_keys_distinct: "distinct (map (ev_key (fst ex_store)) (all_events (snd ex_store)))"
  by (simp add: ex_store_cells ex_early_less)

lemma ex_sorted: "sort_key (ev_key (fst ex_store)) (all_events (snd ex_store)) = [Suc 0, 0, 2]"
  by (simp add: ex_store_cells ex_early_less pair_le_iff)

lemma ex_sort_result:
  "sortEvents ex_store =
     (None,
      (renumber (fst ex_store) 0 [Suc 0, 0, 2],
       (snd ex_store)\<lparr>bytype := [(''ERR'', [Suc 0, 0, 2])], sequence := [Suc 0, 0, 2]\<rparr>),
      [Suc 0, 0, 2])"
proof -
  have "sortEvents (fst ex_store, snd ex_store) =
      (None,
       (renumber (fst ex_store) 0 (sort_key (ev_key (fst ex_store)) (all_events (snd ex_store))),
        (snd ex_store)\<lparr>bytype := map (\<lambda>(k, l). (k, sort_key (ev_key (fst ex_store)) l))
                                   (bytype (snd ex_store)),
                       sequence := sort_key (ev_key (fst ex_store)) (all_events (snd ex_store))\<rparr>),
       sort_key (ev_key (fst ex_store)) (all_events (snd ex_store)))"
    by (rule sortEvents_sorted[OF ex_keys_distinct])
  moreover have "map (\<lambda>(k, l). (k, sort_key (ev_key (fst ex_store)) l)) (bytype (snd ex_store)) =
      [(''ERR'', [Suc 0, 0, 2])]"
    using ex_sorted by (simp add: ex_store_nf all_events_def)
  ultimately show ?thesis by (simp add: ex_sorted)
qed

theorem sequence_numbers_insert_and_sort_witness:
  "add_event ex_store1 1 = (None, ex_store2) \<and> add_event ex_store2 2 = (None, ex_store) \<and>
   seqnum (fst ex_store 1) = 1 \<and> seqnum (fst ex_store 2) = 2 \<and>
   curSeqnum (snd ex_store2) = 2 \<and> curSeqnum (snd ex_store) = 3 \<and>
   distinct (map (ev_key (fst ex_store)) (all_events (snd ex_store))) \<and>
   map (\<lambda>r. (timestamp (fst ex_store r), seqnum (fst ex_store r))) (sequence (snd ex_store)) =
     [(ex_time, 0), (ex_early, 1), (ex_time, 2)] \<and>
   snd (snd (sortEvents ex_store)) = [1, 0, 2] \<and>
   sequence (snd (fst (snd (sortEvents ex_store)))) = [1, 0, 2] \<and>
   map (\<lambda>r. (timestamp (fst (fst (snd (sortEvents ex_store))) r),
             seqnum (fst (fst (snd (sortEvents ex_store))) r))) [1, 0, 2] =
     [(ex_early, 0), (ex_time, 1), (ex_time, 2)]"
proof -
  have a2: "add_event ex_store1 1 = (None, ex_store2)"
    using ex_store2_eq by (simp add: ex_store2_nf)
  have a3: "add_event ex_store2 2 = (None, ex_store)"
    using ex_store_eq by (simp add: ex_store_nf)
  have a2': "add_event (fst ex_store1, snd ex_store1) 1 = (None, ex_store2)"
    using a2 by simp
  have a3': "add_event ex_store2 2 = (None, (fst ex_store, snd ex_store))"
    using a3 by simp
  from sequence_numbers_insert_and_sort [of "fst ex_store1" "snd ex_store1" 1 None
      "fst ex_store2" "snd ex_store2" 1 ex_store2 2 "fst ex_store" "snd ex_store"] a2 a3'
  have s: "seqnum (fst ex_store 2) = seqnum (fst ex_store 1) + 1"
    and c: "curSeqnum (snd ex_store2) = curSeqnum (snd ex_store1) + 1"
    by simp_all
  from sequence_numbers_insert_and_sort [of "fst ex_store" "snd ex_store" 0 None
      "fst ex_store" "snd ex_store" 0 ex_store 0 "fst ex_store" "snd ex_store"] ex_keys_distinct
  obtain h' es' sq where srt: "sortEvents ex_store = (None, (h', es'), sq)"
    and sq: "sq = sort_key (ev_key (fst ex_store)) (all_events (snd ex_store))"
    and num: "\<forall>i<length sq. seqnum (h' (sq ! i)) = int i"
    and ts: "\<forall>x. timestamp (h' x) = timestamp (fst ex_store x)"
    and sequ: "sequence es' = sq"
    by auto
  from sq have sq': "sq = [Suc 0, 0, 2]" by (simp add: ex_sorted)
  from num sq' have n: "seqnum (h' (Suc 0)) = 0" "seqnum (h' 0) = 1" "seqnum (h' 2) = 2"
    by (auto simp: nth_Cons')
  show ?thesis
    using a2 a3 s c srt sq' n ts sequ ex_keys_distinct
    by (simp add: ex_store_nf ex_store2_nf ex_store1_nf)
qed

lemma get_events_loop_sound:
  "r \<in> set (get_events_loop h nm flds before limit num rs) \<Longrightarrow>
   r \<in> set rs \<and> isMatching h nm flds before r"
  by (induction rs arbitrary: num) (auto split: if_splits)

lemma get_events_loop_unlimited:
  "0 \<le> num \<Longrightarrow>
   get_events_loop h nm flds before 0 num rs = filter (isMatching h nm flds before) rs"
  by (induction rs arbitrary: num) auto

lemma get_events_members:
  assumes "get_events (h, es) nm flds before limit = Inr rs" and "r \<in> set rs"
  shows "isMatching h nm flds before r"
  using assms
  by (auto simp: get_events_def split: option.splits dest: get_events_loop_sound)

lemma get_event_member:
  assumes "get_event (h, es) nm flds before = Inr (Some r)"
  shows "isMatching h nm flds before r"
proof -
  from assms obtain rs where "get_events (h, es) nm flds before 1 = Inr (r # rs)"
    by (auto simp: get_event_def split: sum.splits list.splits)
  from get_events_members[OF this] show ?thesis by simp
qed

lemma isMatching_before_time:
  "isMatching h nm flds (Some (BeforeTime t)) r \<longleftrightarrow>
   isMatching h nm flds None r \<and> timestamp (h r) \<le> t"
  by (auto simp: isMatching_def before_excludes_def Let_def)

lemma isMatching_before_event:
  "isMatching h nm flds (Some (BeforeEvent a)) r \<longleftrightarrow>
   isMatching h nm flds None r \<and> timestamp (h r) \<le> timestamp (h a) \<and>
   seqnum (h r) < seqnum (h a)"
  by (auto simp: isMatching_def before_excludes_def Let_def)

text \<open>
  C2. Given a timestamp, \<^verbatim>\<open>before\<close> excludes exactly the events with a later timestamp:
  every event yielded has a timestamp earlier than or equal to the given one, and an
  event whose timestamp equals it is yielded when it meets the other criteria. Without
  a limit the query yields, newest first, the events that meet the other criteria and
  are not later.
\<close>

theorem get_events_before_time:
  "(get_events (h, es) nm flds (Some (BeforeTime t)) limit = Inr rs \<longrightarrow>
      (\<forall>r \<in> set rs. timestamp (h r) \<le> t)) \<and>
   (get_event (h, es) nm flds (Some (BeforeTime t)) = Inr (Some r) \<longrightarrow> timestamp (h r) \<le> t) \<and>
   get_events (h, es) None flds (Some (BeforeTime t)) 0 =
     Inr (filter (\<lambda>r. isMatching h None flds None r \<and> timestamp (h r) \<le> t)
            (rev (sequence es)))"
proof (intro conjI impI ballI)
  fix x assume "get_events (h, es) nm flds (Some (BeforeTime t)) limit = Inr rs" "x \<in> set rs"
  from get_events_members[OF this] show "timestamp (h x) \<le> t"
    by (simp add: isMatching_before_time)
next
  assume "get_event (h, es) nm flds (Some (BeforeTime t)) = Inr (Some r)"
  from get_event_member[OF this] show "timestamp (h r) \<le> t"
    by (simp add: isMatching_before_time)
next
  show "get_events (h, es) None flds (Some (BeforeTime t)) 0 =
     Inr (filter (\<lambda>r. isMatching h None flds None r \<and> timestamp (h r) \<le> t)
            (rev (sequence es)))"
  proof -
    have "isMatching h None flds (Some (BeforeTime t)) =
        (\<lambda>r. isMatching h None flds None r \<and> timestamp (h r) \<le> t)"
      by (rule ext) (simp add: isMatching_before_time)
    then show ?thesis
      by (simp add: get_events_def get_events_loop_unlimited)
  qed
qed

lemma ex_before_time:
  "get_events ex_store None None (Some (BeforeTime ex_time)) 0 = Inr [2, Suc 0, 0]"
  by (simp add: ex_store_nf get_events_def isMatching_def before_excludes_def
      ex_early_less Let_def)

lemma ex_timestamps:
  "timestamp (fst ex_store 0) = ex_time" "timestamp (fst ex_store (Suc 0)) = ex_early"
  "timestamp (fst ex_store 2) = ex_time"
  by (simp_all add: ex_store_nf)

theorem get_events_before_time_witness:
  "get_events ex_store None None (Some (BeforeTime ex_time)) 0 = Inr [2, 1, 0] \<and>
   timestamp (fst ex_store 2) \<le> ex_time \<and> timestamp (fst ex_store 1) \<le> ex_time \<and>
   timestamp (fst ex_store 0) \<le> ex_time \<and>
   get_events ex_store None None (Some (BeforeTime ex_early)) 0 = Inr [1] \<and>
   timestamp (fst ex_store 1) \<le> ex_early"
proof -
  have e: "get_events (fst ex_store, snd ex_store) None None (Some (BeforeTime ex_time)) 0 =
      Inr [2, Suc 0, 0]"
    using ex_before_time by simp
  have e2: "get_events (fst ex_store, snd ex_store) None None (Some (BeforeTime ex_early)) 0 =
      Inr [Suc 0]"
    by (simp add: ex_store_nf get_events_def isMatching_def before_excludes_def
        ex_early_less Let_def)
  from get_events_before_time [of "fst ex_store" "snd ex_store" None None ex_time 0
      "[2, Suc 0, 0]" 0] e
  have "\<forall>r \<in> set [2, Suc 0, 0]. timestamp (fst ex_store r) \<le> ex_time" by blast
  moreover from get_events_before_time [of "fst ex_store" "snd ex_store" None None ex_early 0
      "[Suc 0]" 0] e2
  have "\<forall>r \<in> set [Suc 0]. timestamp (fst ex_store r) \<le> ex_early" by blast
  ultimately show ?thesis using e e2 by simp
qed

text \<open>
  The claim as stated fails: queried with the timestamp that two stored events carry,
  the store yields both, and neither is strictly earlier.
\<close>

theorem get_events_before_time_counterexample:
  "get_events ex_store None None (Some (BeforeTime ex_time)) 0 = Inr [2, 1, 0] \<and>
   timestamp (fst ex_store 2) = ex_time \<and> \<not> timestamp (fst ex_store 2) < ex_time \<and>
   get_event ex_store None None (Some (BeforeTime ex_time)) = Inr (Some 2)"
proof -
  have "get_event ex_store None None (Some (BeforeTime ex_time)) = Inr (Some 2)"
    by (simp add: get_event_def ex_store_nf get_events_def isMatching_def before_excludes_def
        ex_early_less Let_def)
  then show ?thesis using ex_before_time by (simp add: ex_timestamps)
qed

text \<open>
  C3. Given an event \<open>a\<close>, \<^verbatim>\<open>before\<close> admits only events whose sequence number is
  strictly less than that of \<open>a\<close> (and whose timestamp is not later): the query never
  yields \<open>a\<close> itself nor an event with an equal or greater sequence number, and neither
  does \<^verbatim>\<open>get_event\<close>.
\<close>

theorem get_events_before_event:
  "(get_events (h, es) nm flds (Some (BeforeEvent a)) limit = Inr rs \<longrightarrow>
      a \<notin> set rs \<and> (\<forall>r \<in> set rs. seqnum (h r) < seqnum (h a))) \<and>
   (get_event (h, es) nm flds (Some (BeforeEvent a)) = Inr (Some r) \<longrightarrow>
      r \<noteq> a \<and> seqnum (h r) < seqnum (h a))"
proof (intro conjI impI)
  assume g: "get_events (h, es) nm flds (Some (BeforeEvent a)) limit = Inr rs"
  show all: "\<forall>r \<in> set rs. seqnum (h r) < seqnum (h a)"
    using get_events_members[OF g] by (simp add: isMatching_before_event)
  then show "a \<notin> set rs" by auto
next
  assume "get_event (h, es) nm flds (Some (BeforeEvent a)) = Inr (Some r)"
  from get_event_member[OF this] show lt: "seqnum (h r) < seqnum (h a)"
    by (simp add: isMatching_before_event)
  then show "r \<noteq> a" by auto
qed

theorem get_events_before_event_witness:
  "get_events ex_store None None (Some (BeforeEvent 2)) 0 = Inr [1, 0] \<and>
   seqnum (fst ex_store 2) = 2 \<and> seqnum (fst ex_store 1) < seqnum (fst ex_store 2) \<and>
   seqnum (fst ex_store 0) < seqnum (fst ex_store 2) \<and>
   get_event ex_store None None (Some (BeforeEvent 2)) = Inr (Some 1) \<and>
   get_events ex_store None None (Some (BeforeEvent 0)) 0 = Inr []"
proof -
  have e: "get_events (fst ex_store, snd ex_store) None None (Some (BeforeEvent 2)) 0 =
      Inr [Suc 0, 0]"
    by (simp add: ex_store_nf get_events_def isMatching_def before_excludes_def
        ex_early_less Let_def)
  have g: "get_event (fst ex_store, snd ex_store) None None (Some (BeforeEvent 2)) =
      Inr (Some (Suc 0))"
    by (simp add: get_event_def ex_store_nf get_events_def isMatching_def before_excludes_def
        ex_early_less Let_def)
  have z: "get_events ex_store None None (Some (BeforeEvent 0)) 0 = Inr []"
    by (simp add: ex_store_nf get_events_def isMatching_def before_excludes_def
        ex_early_less Let_def)
  from get_events_before_event [of "fst ex_store" "snd ex_store" None None 2 0
      "[Suc 0, 0]" "Suc 0"] e g
  have "\<forall>r \<in> set [Suc 0, 0]. seqnum (fst ex_store r) < seqnum (fst ex_store 2)" by blast
  then show ?thesis using e g z by (simp add: ex_store_nf)
qed

subsection \<open>Timestamp derivation\<close>

lemma py_int_empty: "py_int [] = Inl ValueError"
  by (simp add: py_int_def strip_def)

lemma py_int_nonempty: "py_int s = Inr n \<Longrightarrow> s \<noteq> []"
  using py_int_empty by auto

lemma parse_year_nonempty: "parse_year s = Inr n \<Longrightarrow> s \<noteq> []"
  by (auto simp: parse_year_def ebind_def py_int_empty)

lemma parse_month_nonempty: "parse_month s = Inr n \<Longrightarrow> s \<noteq> []"
  by (auto simp: parse_month_def py_int_empty)

lemma digit_not_space: "digit_val c \<noteq> None \<Longrightarrow> \<not> is_space c"
  by (auto simp: digit_val_def is_space_def split: if_splits)

lemma digit_not_sign: "digit_val c \<noteq> None \<Longrightarrow> c \<noteq> CHR ''-'' \<and> c \<noteq> CHR ''+''"
  by (auto simp: digit_val_def split: if_splits)

lemma digit_val_less: "digit_val c = Some d \<Longrightarrow> d < 10"
  by (auto simp: digit_val_def split: if_splits)

lemma py_int_two_digits:
  assumes "y \<noteq> []" and "length y \<le> 2" and "list_all (\<lambda>c. digit_val c \<noteq> None) y"
  shows "\<exists>n. py_int y = Inr n \<and> 0 \<le> n \<and> n < 100"
proof -
  from assms(1,2) consider a where "y = [a]" | a b where "y = [a, b]"
    by (cases y; cases "tl y") auto
  then show ?thesis
  proof cases
    case 1
    with assms(3) obtain d where d: "digit_val a = Some d" by auto
    from d have ns: "\<not> is_space a" and sg: "a \<noteq> CHR ''-''" "a \<noteq> CHR ''+''"
      using digit_not_space[of a] digit_not_sign[of a] by auto
    from digit_val_less[OF d] have "d < 10" .
    with 1 d ns sg show ?thesis
      by (simp add: py_int_def strip_def Let_def)
  next
    case 2
    with assms(3) obtain d e where d: "digit_val a = Some d" and e: "digit_val b = Some e"
      by auto
    from d e have ns: "\<not> is_space a" "\<not> is_space b" and sg: "a \<noteq> CHR ''-''" "a \<noteq> CHR ''+''"
      using digit_not_space[of a] digit_not_space[of b] digit_not_sign[of a] by auto
    from digit_val_less[OF d] digit_val_less[OF e] have "10 * d + e < 100" by simp
    with 2 d e ns sg show ?thesis
      by (simp add: py_int_def strip_def Let_def)
  qed
qed

lemma ts_names_dmy:
  "d \<noteq> [] \<Longrightarrow> mo \<noteq> [] \<Longrightarrow> y \<noteq> [] \<Longrightarrow> hh \<noteq> [] \<Longrightarrow> mi \<noteq> [] \<Longrightarrow>
   ts_names [(''_D'', PyStr d), (''_M'', PyStr mo), (''_Y'', PyStr y), (''_h'', PyStr hh),
             (''_m'', PyStr mi)] [] =
     Inr [(''D'', ''_D''), (''M'', ''_M''), (''Y'', ''_Y''), (''h'', ''_h''), (''m'', ''_m'')]"
  by simp

lemma ts_datetime_dmy:
  assumes "parse_year y = Inr Y" and "parse_month mo = Inr M" and "py_int d = Inr D"
    and "py_int hh = Inr H" and "py_int mi = Inr Mi"
  shows "ts_datetime nw [(''_D'', PyStr d), (''_M'', PyStr mo), (''_Y'', PyStr y),
                          (''_h'', PyStr hh), (''_m'', PyStr mi)] src =
           mk_datetime Y M D H Mi 0"
proof -
  from assms have ne: "d \<noteq> []" "mo \<noteq> []" "y \<noteq> []" "hh \<noteq> []" "mi \<noteq> []"
    by (auto dest: py_int_nonempty parse_year_nonempty parse_month_nonempty)
  show ?thesis
    unfolding ts_datetime_def ts_names_dmy[OF ne]
    using assms by (simp add: ebind_def ts_field_def dict_get_def dict_has_def)
qed

lemma ts_add_fields_dmy:
  "ts_add_fields ev [(''_D'', PyStr d), (''_M'', PyStr mo), (''_Y'', PyStr y),
                     (''_h'', PyStr hh), (''_m'', PyStr mi)] = (None, ev)"
  by simp

lemma mk_datetime_parts:
  "mk_datetime Y M D H Mi S = Inr t \<Longrightarrow> dt_year t = Y \<and> dt_month t = M"
  by (auto simp: mk_datetime_def dt_year_def dt_month_def split: if_splits)

lemma parse_examples:
  "parse_month ''Feb'' = Inr 2" "parse_month ''02'' = Inr 2"
  "parse_year ''16'' = Inr 2016" "parse_year ''99'' = Inr 2099"
  by code_simp+

text \<open>
  C5. A month captured as \<^verbatim>\<open>Feb\<close> and one captured as \<^verbatim>\<open>02\<close> both give month 2: a value of
  at most two characters is read as a number, a longer one by its first three letters,
  in upper case, in the table of English abbreviations. A captured year below 100, so
  every year of one or two digits, has 2000 added: \<^verbatim>\<open>16\<close> gives 2016 and \<^verbatim>\<open>99\<close> gives 2099.
  For a timestamp match with the groups day, month, year, hour and minute,
  \<^verbatim>\<open>parseTimestamp\<close> sets the timestamp of the event to the year and the month so derived,
  with second 0.
\<close>

theorem timestamp_month_and_year:
  "parse_month ''Feb'' = Inr 2 \<and> parse_month ''02'' = Inr 2 \<and>
   (length mo \<le> 2 \<longrightarrow> parse_month mo = py_int mo) \<and>
   (2 < length mo \<longrightarrow> parse_month mo = dict_get months (map upper_char (take 3 mo))) \<and>
   parse_year ''16'' = Inr 2016 \<and> parse_year ''99'' = Inr 2099 \<and>
   (py_int y = Inr n \<longrightarrow> parse_year y = Inr (if n < 100 then n + 2000 else n)) \<and>
   (y \<noteq> [] \<longrightarrow> length y \<le> 2 \<longrightarrow> list_all (\<lambda>c. digit_val c \<noteq> None) y \<longrightarrow>
      (\<exists>k. py_int y = Inr k \<and> 0 \<le> k \<and> k < 100 \<and> parse_year y = Inr (k + 2000))) \<and>
   (searchTimestamp (eventType ev) line = Some ts \<longrightarrow> line \<noteq> [] \<longrightarrow>
    groupdict ts = [(''_D'', PyStr d), (''_M'', PyStr mo), (''_Y'', PyStr y),
                    (''_h'', PyStr hh), (''_m'', PyStr mi)] \<longrightarrow>
    parse_year y = Inr Y \<longrightarrow> parse_month mo = Inr M \<longrightarrow> py_int d = Inr D \<longrightarrow>
    py_int hh = Inr H \<longrightarrow> py_int mi = Inr Mi \<longrightarrow> mk_datetime Y M D H Mi 0 = Inr t \<longrightarrow>
      parseTimestamp nw ev (Some line) src =
        (None, (setTimestamp ev (Some t))\<lparr>timestampSpan := span ts\<rparr>) \<and>
      timestamp (snd (parseTimestamp nw ev (Some line) src)) = t \<and>
      dt_year t = Y \<and> dt_month t = M)"
proof (intro conjI impI)
  show "parse_month ''Feb'' = Inr 2" "parse_month ''02'' = Inr 2"
    "parse_year ''16'' = Inr 2016" "parse_year ''99'' = Inr 2099"
    by (rule parse_examples)+
next
  assume "length mo \<le> 2"
  then show "parse_month mo = py_int mo" by (simp add: parse_month_def)
next
  assume "2 < length mo"
  then show "parse_month mo = dict_get months (map upper_char (take 3 mo))"
    by (simp add: parse_month_def)
next
  assume "py_int y = Inr n"
  then show "parse_year y = Inr (if n < 100 then n + 2000 else n)"
    by (simp add: parse_year_def ebind_def)
next
  assume "y \<noteq> []" "length y \<le> 2" "list_all (\<lambda>c. digit_val c \<noteq> None) y"
  from py_int_two_digits[OF this] obtain k where "py_int y = Inr k" "0 \<le> k" "k < 100"
    by blast
  then show "\<exists>k. py_int y = Inr k \<and> 0 \<le> k \<and> k < 100 \<and> parse_year y = Inr (k + 2000)"
    by (auto simp: parse_year_def ebind_def)
next
  assume s: "searchTimestamp (eventType ev) line = Some ts" and l: "line \<noteq> []"
    and g: "groupdict ts = [(''_D'', PyStr d), (''_M'', PyStr mo), (''_Y'', PyStr y),
                    (''_h'', PyStr hh), (''_m'', PyStr mi)]"
    and p: "parse_year y = Inr Y" "parse_month mo = Inr M" "py_int d = Inr D"
      "py_int hh = Inr H" "py_int mi = Inr Mi"
    and m: "mk_datetime Y M D H Mi 0 = Inr t"
  show r: "parseTimestamp nw ev (Some line) src =
        (None, (setTimestamp ev (Some t))\<lparr>timestampSpan := span ts\<rparr>)"
    unfolding parseTimestamp_def
    using s l m by (simp add: g ts_datetime_dmy[OF p] del: ts_add_fields.simps
        add: ts_add_fields_dmy)
  show "timestamp (snd (parseTimestamp nw ev (Some line) src)) = t"
    by (simp add: r)
  from mk_datetime_parts[OF m] show "dt_year t = Y" "dt_month t = M" by simp_all
qed

lemma ex_ts_search:
  "searchTimestamp ex_ts_type ''01/Feb/16 10:30'' =
     Some \<lparr>span = (0, 15),
           groupdict = [(''_D'', PyStr ''01''), (''_M'', PyStr ''Feb''), (''_Y'', PyStr ''16''),
                        (''_h'', PyStr ''10''), (''_m'', PyStr ''30'')]\<rparr>"
  "searchTimestamp ex_ts_type ''01/02/99 10:30'' =
     Some \<lparr>span = (0, 14),
           groupdict = [(''_D'', PyStr ''01''), (''_M'', PyStr ''02''), (''_Y'', PyStr ''99''),
                        (''_h'', PyStr ''10''), (''_m'', PyStr ''30'')]\<rparr>"
  by code_simp+

lemma ex_ts_ints:
  "py_int ''01'' = Inr 1" "py_int ''10'' = Inr 10" "py_int ''30'' = Inr 30"
  "py_int ''16'' = Inr 16" "py_int ''99'' = Inr 99"
  "mk_datetime 2016 2 1 10 30 0 = Inr (2016, 2, 1, 10, 30, 0, 0)"
  "mk_datetime 2099 2 1 10 30 0 = Inr (2099, 2, 1, 10, 30, 0, 0)"
  by code_simp+

lemma ex_ts_event_type: "eventType ex_ts_event = ex_ts_type"
  by (simp add: ex_ts_event_def Event_init_def Let_def)

theorem timestamp_month_and_year_witness:
  "searchTimestamp (eventType ex_ts_event) ''01/Feb/16 10:30'' \<noteq> None \<and>
   timestamp (snd (parseTimestamp (now ex_env) ex_ts_event (Some ''01/Feb/16 10:30'') None)) =
     (2016, 2, 1, 10, 30, 0, 0) \<and>
   fst (parseTimestamp (now ex_env) ex_ts_event (Some ''01/Feb/16 10:30'') None) = None \<and>
   searchTimestamp (eventType ex_ts_event) ''01/02/99 10:30'' \<noteq> None \<and>
   timestamp (snd (parseTimestamp (now ex_env) ex_ts_event (Some ''01/02/99 10:30'') None)) =
     (2099, 2, 1, 10, 30, 0, 0) \<and>
   fst (parseTimestamp (now ex_env) ex_ts_event (Some ''01/02/99 10:30'') None) = None \<and>
   py_int ''16'' = Inr 16 \<and> parse_year ''16'' = Inr 2016 \<and>
   py_int ''02'' = Inr 2 \<and> parse_month ''02'' = Inr 2 \<and>
   dict_get months (map upper_char (take 3 ''Feb'')) = Inr 2"
proof -
  have i2: "py_int ''02'' = Inr 2" and mf: "dict_get months (map upper_char (take 3 ''Feb'')) = Inr 2"
    by code_simp+
  note t1 = timestamp_month_and_year [of "''Feb''" "''16''" 16 ex_ts_event "''01/Feb/16 10:30''"
      "\<lparr>span = (0, 15),
           groupdict = [(''_D'', PyStr ''01''), (''_M'', PyStr ''Feb''), (''_Y'', PyStr ''16''),
                        (''_h'', PyStr ''10''), (''_m'', PyStr ''30'')]\<rparr>"
      "''01''" "''10''" "''30''" 2016 2 1 10 30 "(2016, 2, 1, 10, 30, 0, 0)" "now ex_env" None]
  note t2 = timestamp_month_and_year [of "''02''" "''99''" 99 ex_ts_event "''01/02/99 10:30''"
      "\<lparr>span = (0, 14),
           groupdict = [(''_D'', PyStr ''01''), (''_M'', PyStr ''02''), (''_Y'', PyStr ''99''),
                        (''_h'', PyStr ''10''), (''_m'', PyStr ''30'')]\<rparr>"
      "''01''" "''10''" "''30''" 2099 2 1 10 30 "(2099, 2, 1, 10, 30, 0, 0)" "now ex_env" None]
  from t1 have a: "parseTimestamp (now ex_env) ex_ts_event (Some ''01/Feb/16 10:30'') None =
      (None, (setTimestamp ex_ts_event (Some (2016, 2, 1, 10, 30, 0, 0)))\<lparr>timestampSpan := (0, 15)\<rparr>)"
    by (simp add: ex_ts_event_type ex_ts_search ex_ts_ints parse_examples)
  from t2 have b: "parseTimestamp (now ex_env) ex_ts_event (Some ''01/02/99 10:30'') None =
      (None, (setTimestamp ex_ts_event (Some (2099, 2, 1, 10, 30, 0, 0)))\<lparr>timestampSpan := (0, 14)\<rparr>)"
    by (simp add: ex_ts_event_type ex_ts_search ex_ts_ints parse_examples)
  show ?thesis
    using a b i2 mf by (simp add: ex_ts_event_type ex_ts_search ex_ts_ints parse_examples)
qed

subsection \<open>Templates\<close>

lemma ex_template_split:
  "re_split placeholder_rx ''user {code@LOGIN:user=account}!'' 0 0 =
     [''user '', ''{code@LOGIN:user=account}'', ''!'']"
  by code_simp

lemma ex_tstore_fields:
  "has_field (fst ex_tstore 0) ''code''" "\<not> has_field (fst ex_tstore 0) ''account''"
  "dict_has (bytype (snd ex_tstore)) ''LOGIN''"
  "get_field (dict_str ex_env) (fst ex_tstore 0) ''code'' = Inr (PyStr ''7'')"
  by code_simp+

lemma ex_resolve:
  "resolve ex_env ex_tstore 0 ''{code@LOGIN:user=account}'' =
     Inr (PyStr (''COMPARISON FIELD '' @ quoted ''code'' @ '' NOT FOUND''))"
  by code_simp

text \<open>
  C6. At the placeholder \<^verbatim>\<open>{code@LOGIN:user=account}\<close>, for a current event that has the
  field \<^verbatim>\<open>code\<close> and lacks the comparison field \<^verbatim>\<open>account\<close>, rendering does not raise, but
  the diagnostic it substitutes names \<^verbatim>\<open>code\<close>, the field to fetch, where the claim and
  the wording of the message ask for \<^verbatim>\<open>account\<close>.
\<close>

theorem comparison_field_message:
  "replaceFields ex_env ex_tstore 0 ''user {code@LOGIN:user=account}!'' =
     Inr (''user COMPARISON FIELD '' @ quoted ''code'' @ '' NOT FOUND!'') \<and>
   replaceFields ex_env ex_tstore 0 ''user {code@LOGIN:user=account}!'' \<noteq>
     Inr (''user COMPARISON FIELD '' @ quoted ''account'' @ '' NOT FOUND!'') \<and>
   has_field (fst ex_tstore 0) ''code'' \<and> \<not> has_field (fst ex_tstore 0) ''account''"
proof -
  have "replaceFields ex_env ex_tstore 0 ''user {code@LOGIN:user=account}!'' =
     Inr (''user COMPARISON FIELD '' @ quoted ''code'' @ '' NOT FOUND!'')"
    by (simp add: replaceFields_def ex_template_split ex_resolve Let_def)
  then show ?thesis
    using ex_tstore_fields by (simp add: quoted_def)
qed

subsection \<open>The multiline scan\<close>






























end
